theory Spec2Isabelle
  imports Main
begin

section \<open>Cells, columns and frames\<close>

text \<open>
  The notebook works on one pandas DataFrame, \<open>ge_data\<close>, read from a CSV file and
  rewritten statement by statement. A frame is modelled as the list of its columns in
  order, each a label with a dtype and the cell values from the first row to the last.
  A cell is a Python string, a Python integer, a missing value (the float NaN of an
  object or float column, NaT in a datetime column), or a Timestamp. The format
  \<open>%d/%m/%Y\<close> has no time-of-day field, so every Timestamp the notebook creates is at
  midnight and a Timestamp carries its calendar date only. Floating-point cells other
  than NaN are outside the model.

  A Python string is the list of its code points (integers from 0 to 0x10FFFF), so that the characters beyond ASCII
  that \<open>str.strip\<close>, \<open>int\<close> and the pattern \<open>\d\<close> treat as whitespace or as digits are
  characters of the model too. \<open>py\<close> writes a string of ASCII characters.
\<close>

type_synonym pystr = "int list"

definition py :: "string \<Rightarrow> pystr" where
  "py s = map of_char s"

datatype date = Date (year: nat) (month: nat) (day: nat)

datatype cell = Str pystr | Num int | NaN | Ts date

datatype error =
  KeyError | ValueError | TypeError | OverflowError | AttributeError | OutOfBoundsDatetime

datatype dtype = Object | Int64 | Float64 | Category "pystr list" | Datetime64

datatype column = Column (dtype: dtype) (cells: "cell list")

type_synonym dataframe = "(pystr \<times> column) list"

text \<open>Every raise of the Python is a value \<open>Inl e\<close>; a result is \<open>Inr x\<close>.\<close>

fun and_then :: "error + 'a \<Rightarrow> ('a \<Rightarrow> error + 'b) \<Rightarrow> error + 'b" where
  "and_then (Inl e) f = Inl e"
| "and_then (Inr x) f = f x"

fun map_result :: "('a \<Rightarrow> error + 'b) \<Rightarrow> 'a list \<Rightarrow> error + 'b list" where
  "map_result f [] = Inr []"
| "map_result f (x # xs) =
     (case f x of
        Inl e \<Rightarrow> Inl e
      | Inr y \<Rightarrow> (case map_result f xs of Inl e \<Rightarrow> Inl e | Inr ys \<Rightarrow> Inr (y # ys)))"

text \<open>
  \<open>df[label]\<close> raises KeyError when the label is absent. \<open>df[label] = col\<close> overwrites
  the column in place, or appends a new last column. The labels of a frame read by
  \<open>read_csv\<close> are pairwise distinct.
\<close>

definition get_col :: "dataframe \<Rightarrow> pystr \<Rightarrow> error + column" where
  "get_col df l = (case map_of df l of None \<Rightarrow> Inl KeyError | Some c \<Rightarrow> Inr c)"

fun set_col :: "dataframe \<Rightarrow> pystr \<Rightarrow> column \<Rightarrow> dataframe" where
  "set_col [] l c = [(l, c)]"
| "set_col ((k, d) # df) l c = (if k = l then (k, c) # df else (k, d) # set_col df l c)"

section \<open>Python strings and integers\<close>

text \<open>
  The whitespace of \<open>str.strip()\<close> and \<open>str.isspace()\<close>: the ASCII controls
  \<open>\t \n \v \f \r\<close> and \<open>\x1c\<close> to \<open>\x1f\<close>, the blank, and beyond ASCII U+0085, U+00A0,
  U+1680, U+2000 to U+200A, U+2028, U+2029, U+202F, U+205F and U+3000.
\<close>

definition is_space :: "int \<Rightarrow> bool" where
  "is_space c =
     (c \<in> set [0x09, 0x0A, 0x0B, 0x0C, 0x0D, 0x1C, 0x1D, 0x1E, 0x1F, 0x20, 0x85, 0xA0,
                0x1680, 0x2028, 0x2029, 0x202F, 0x205F, 0x3000]
      \<or> (0x2000 \<le> c \<and> c \<le> 0x200A))"

text \<open>\<open>str.strip()\<close>: leading and trailing whitespace removed.\<close>

definition strip :: "pystr \<Rightarrow> pystr" where
  "strip s = rev (dropWhile is_space (rev (dropWhile is_space s)))"

text \<open>
  The decimal digits of Unicode 14 (the tables of Python 3.11) come in runs of ten, from
  the digit zero of a script to its digit nine; these are the code points of the zeros.
  \<open>decimal\<close> is the value of a decimal digit, as \<open>int\<close> and \<open>\d\<close> use it.
\<close>

definition decimal_zeros :: "int list" where
  "decimal_zeros =
     [0x30, 0x660, 0x6F0, 0x7C0, 0x966, 0x9E6, 0xA66, 0xAE6, 0xB66, 0xBE6, 0xC66, 0xCE6,
      0xD66, 0xDE6, 0xE50, 0xED0, 0xF20, 0x1040, 0x1090, 0x17E0, 0x1810, 0x1946, 0x19D0,
      0x1A80, 0x1A90, 0x1B50, 0x1BB0, 0x1C40, 0x1C50, 0xA620, 0xA8D0, 0xA900, 0xA9D0,
      0xA9F0, 0xAA50, 0xABF0, 0xFF10, 0x104A0, 0x10D30, 0x11066, 0x110F0, 0x11136,
      0x111D0, 0x112F0, 0x11450, 0x114D0, 0x11650, 0x116C0, 0x11730, 0x118E0, 0x11950,
      0x11C50, 0x11D50, 0x11DA0, 0x16A60, 0x16AC0, 0x16B50, 0x1D7CE, 0x1D7D8, 0x1D7E2,
      0x1D7EC, 0x1D7F6, 0x1E140, 0x1E2F0, 0x1E950, 0x1FBF0]"

definition decimal :: "int \<Rightarrow> nat option" where
  "decimal c = map_option (\<lambda>z. nat (c - z)) (find (\<lambda>z. z \<le> c \<and> c < z + 10) decimal_zeros)"

text \<open>The ASCII digits \<open>0\<close> to \<open>9\<close>, and the value of one.\<close>

definition is_digit :: "int \<Rightarrow> bool" where
  "is_digit c = (of_char CHR ''0'' \<le> c \<and> c \<le> of_char CHR ''9'')"

definition digit_val :: "int \<Rightarrow> nat" where
  "digit_val c = nat (c - of_char CHR ''0'')"

text \<open>
  \<open>int(s)\<close> first rewrites the string to ASCII: a character below 127 is kept, any
  other whitespace becomes a blank and any other decimal digit its ASCII digit; the
  first character that is neither ends the string with a question mark.
\<close>

fun to_ascii :: "pystr \<Rightarrow> pystr" where
  "to_ascii [] = []"
| "to_ascii (c # cs) =
     (if c < 127 then c # to_ascii cs
      else if is_space c then of_char CHR '' '' # to_ascii cs
      else (case decimal c of
              Some d \<Rightarrow> (of_char CHR ''0'' + int d) # to_ascii cs
            | None \<Rightarrow> [of_char CHR ''?'']))"

text \<open>The whitespace the integer parser skips at both ends of the ASCII string.\<close>

definition c_space :: "int \<Rightarrow> bool" where
  "c_space c = (c \<in> set [0x09, 0x0A, 0x0B, 0x0C, 0x0D, 0x20])"

text \<open>
  The digits of \<open>int(s)\<close>, after the first one: decimal digits, where a single
  underscore may stand between two digits.
\<close>

fun digits_value :: "nat \<Rightarrow> pystr \<Rightarrow> nat option" where
  "digits_value acc [] = Some acc"
| "digits_value acc [c] = (if is_digit c then Some (10 * acc + digit_val c) else None)"
| "digits_value acc (c # d # ds) =
     (if is_digit c then digits_value (10 * acc + digit_val c) (d # ds)
      else if c = of_char CHR ''_'' \<and> is_digit d then digits_value (10 * acc + digit_val d) ds
      else None)"

definition py_digits :: "pystr \<Rightarrow> nat option" where
  "py_digits s =
     (case s of [] \<Rightarrow> None
      | c # cs \<Rightarrow> if is_digit c then digits_value (digit_val c) cs else None)"

text \<open>
  \<open>int(s)\<close> for a string: the string is rewritten to ASCII, the whitespace at its ends
  is skipped, then come an optional sign and the digits, up to the end. None stands for
  the ValueError.
\<close>

definition py_int :: "pystr \<Rightarrow> int option" where
  "py_int s =
     (case rev (dropWhile c_space (rev (dropWhile c_space (to_ascii s)))) of
        [] \<Rightarrow> None
      | c # cs \<Rightarrow>
          if c = of_char CHR ''-'' then map_option (\<lambda>n. - int n) (py_digits cs)
          else if c = of_char CHR ''+'' then map_option int (py_digits cs)
          else map_option int (py_digits (c # cs)))"

definition in_int64 :: "int \<Rightarrow> bool" where
  "in_int64 n = (- (2 ^ 63) \<le> n \<and> n < 2 ^ 63)"

section \<open>Dates\<close>

definition leap_year :: "nat \<Rightarrow> bool" where
  "leap_year y = (y mod 4 = 0 \<and> (y mod 100 \<noteq> 0 \<or> y mod 400 = 0))"

definition days_in_month :: "nat \<Rightarrow> nat \<Rightarrow> nat" where
  "days_in_month y m =
     (if m = 2 then (if leap_year y then 29 else 28)
      else if m = 4 \<or> m = 6 \<or> m = 9 \<or> m = 11 then 30 else 31)"

definition valid_date :: "date \<Rightarrow> bool" where
  "valid_date d =
     (1 \<le> year d \<and> 1 \<le> month d \<and> month d \<le> 12 \<and>
      1 \<le> day d \<and> day d \<le> days_in_month (year d) (month d))"

definition date_le :: "date \<Rightarrow> date \<Rightarrow> bool" where
  "date_le a b =
     (year a < year b \<or>
      (year a = year b \<and> (month a < month b \<or> (month a = month b \<and> day a \<le> day b))))"

text \<open>
  A Timestamp counts nanoseconds in 64 bits: the midnights it can hold run from
  1677-09-22 to 2262-04-11.
\<close>

definition in_bounds :: "date \<Rightarrow> bool" where
  "in_bounds d = (date_le (Date 1677 9 22) d \<and> date_le d (Date 2262 4 11))"

text \<open>
  The directives of \<open>strptime\<close>, each returning the value read and the rest of the
  string. \<open>%d\<close> is the pattern \<open>3[0-1]|[1-2]\d|0[1-9]|[1-9]| [1-9]\<close>, \<open>%m\<close> is
  \<open>1[0-2]|0[1-9]|[1-9]\<close>, \<open>%Y\<close> is \<open>\d\d\d\d\<close>; a bracket names ASCII digits, \<open>\d\<close> is
  any decimal digit, and the text matched is read with \<open>int\<close>. The alternatives of a
  pattern are tried from left to right. In the format \<open>%d/%m/%Y\<close> each of the first two
  is followed by a slash, so the first alternative that matches is the only one that can
  be followed by it.
\<close>

definition in_range :: "char \<Rightarrow> char \<Rightarrow> int \<Rightarrow> bool" where
  "in_range lo hi c = (of_char lo \<le> c \<and> c \<le> of_char hi)"

fun or_else :: "'a option \<Rightarrow> 'a option \<Rightarrow> 'a option" where
  "or_else (Some x) y = Some x"
| "or_else None y = y"

text \<open>Two characters: an ASCII digit of a range, then an ASCII digit of a range.\<close>

definition digit_digit :: "char \<Rightarrow> char \<Rightarrow> char \<Rightarrow> char \<Rightarrow> pystr \<Rightarrow> (nat \<times> pystr) option" where
  "digit_digit lo1 hi1 lo2 hi2 s =
     (case s of
        a # b # r \<Rightarrow>
          if in_range lo1 hi1 a \<and> in_range lo2 hi2 b
          then Some (10 * digit_val a + digit_val b, r) else None
      | _ \<Rightarrow> None)"

text \<open>Two characters: an ASCII digit of a range, then any decimal digit.\<close>

definition digit_decimal :: "char \<Rightarrow> char \<Rightarrow> pystr \<Rightarrow> (nat \<times> pystr) option" where
  "digit_decimal lo hi s =
     (case s of
        a # b # r \<Rightarrow>
          if in_range lo hi a
          then (case decimal b of Some k \<Rightarrow> Some (10 * digit_val a + k, r) | None \<Rightarrow> None)
          else None
      | _ \<Rightarrow> None)"

text \<open>One character, an ASCII digit from 1 to 9; and the same after a blank.\<close>

definition one_digit :: "pystr \<Rightarrow> (nat \<times> pystr) option" where
  "one_digit s =
     (case s of
        a # r \<Rightarrow> if in_range CHR ''1'' CHR ''9'' a then Some (digit_val a, r) else None
      | _ \<Rightarrow> None)"

definition blank_digit :: "pystr \<Rightarrow> (nat \<times> pystr) option" where
  "blank_digit s =
     (case s of a # r \<Rightarrow> if a = of_char CHR '' '' then one_digit r else None | _ \<Rightarrow> None)"

definition directive_d :: "pystr \<Rightarrow> (nat \<times> pystr) option" where
  "directive_d s =
     or_else (digit_digit CHR ''3'' CHR ''3'' CHR ''0'' CHR ''1'' s)
    (or_else (digit_decimal CHR ''1'' CHR ''2'' s)
    (or_else (digit_digit CHR ''0'' CHR ''0'' CHR ''1'' CHR ''9'' s)
    (or_else (one_digit s) (blank_digit s))))"

definition directive_m :: "pystr \<Rightarrow> (nat \<times> pystr) option" where
  "directive_m s =
     or_else (digit_digit CHR ''1'' CHR ''1'' CHR ''0'' CHR ''2'' s)
    (or_else (digit_digit CHR ''0'' CHR ''0'' CHR ''1'' CHR ''9'' s) (one_digit s))"

definition directive_Y :: "pystr \<Rightarrow> (nat \<times> pystr) option" where
  "directive_Y s =
     (case s of
        a # b # c # d # r \<Rightarrow>
          (case (decimal a, decimal b, decimal c, decimal d) of
             (Some k, Some l, Some m, Some n) \<Rightarrow> Some (1000 * k + 100 * l + 10 * m + n, r)
           | _ \<Rightarrow> None)
      | _ \<Rightarrow> None)"

definition literal :: "char \<Rightarrow> pystr \<Rightarrow> pystr option" where
  "literal ch s = (case s of a # r \<Rightarrow> if a = of_char ch then Some r else None | _ \<Rightarrow> None)"

text \<open>
  Parsing one string with \<open>format="%d/%m/%Y"\<close>: the whole string has to match, and the
  fields have to name a day of the calendar. None stands for the ValueError.
\<close>

definition strptime_dmy :: "pystr \<Rightarrow> date option" where
  "strptime_dmy s =
     (case directive_d s of
        None \<Rightarrow> None
      | Some (d, s1) \<Rightarrow>
     (case literal CHR ''/'' s1 of
        None \<Rightarrow> None
      | Some s2 \<Rightarrow>
     (case directive_m s2 of
        None \<Rightarrow> None
      | Some (m, s3) \<Rightarrow>
     (case literal CHR ''/'' s3 of
        None \<Rightarrow> None
      | Some s4 \<Rightarrow>
     (case directive_Y s4 of
        None \<Rightarrow> None
      | Some (y, s5) \<Rightarrow>
          if s5 = [] \<and> valid_date (Date y m d) then Some (Date y m d) else None)))))"

text \<open>
  The string a Date column is compared with: the notebook writes these as
  \<open>YYYY-MM-DD\<close> in ASCII digits, which pandas reads as that day at midnight.
\<close>

definition two_digits :: "nat \<Rightarrow> nat \<Rightarrow> pystr \<Rightarrow> (nat \<times> pystr) option" where
  "two_digits lo hi s =
     (case s of
        a # b # r \<Rightarrow>
          if is_digit a \<and> is_digit b \<and> lo \<le> 10 * digit_val a + digit_val b
              \<and> 10 * digit_val a + digit_val b \<le> hi
          then Some (10 * digit_val a + digit_val b, r) else None
      | _ \<Rightarrow> None)"

definition four_digits :: "pystr \<Rightarrow> (nat \<times> pystr) option" where
  "four_digits s =
     (case s of
        a # b # c # d # r \<Rightarrow>
          if is_digit a \<and> is_digit b \<and> is_digit c \<and> is_digit d
          then Some (1000 * digit_val a + 100 * digit_val b + 10 * digit_val c + digit_val d, r)
          else None
      | _ \<Rightarrow> None)"

definition parse_iso :: "pystr \<Rightarrow> date option" where
  "parse_iso s =
     (case four_digits s of
        None \<Rightarrow> None
      | Some (y, s1) \<Rightarrow>
     (case literal CHR ''-'' s1 of
        None \<Rightarrow> None
      | Some s2 \<Rightarrow>
     (case two_digits 1 12 s2 of
        None \<Rightarrow> None
      | Some (m, s3) \<Rightarrow>
     (case literal CHR ''-'' s3 of
        None \<Rightarrow> None
      | Some s4 \<Rightarrow>
     (case two_digits 1 31 s4 of
        None \<Rightarrow> None
      | Some (d, s5) \<Rightarrow>
          if s5 = [] \<and> valid_date (Date y m d) then Some (Date y m d) else None)))))"

section \<open>The statements of the notebook\<close>

subsection \<open>Schema normalisation\<close>

text \<open>
  \<open>pd.Categorical(values, categories=..., ordered=True)\<close>: a value that is one of the
  categories is kept, every other value becomes missing; the column's dtype records the
  categories in their order.
\<close>

definition day_categories :: "pystr list" where
  "day_categories = [py ''Mon'', py ''Tue'', py ''Wed'', py ''Thu'', py ''Fri'', py ''Sat'', py ''Sun'']"

definition categorical_cell :: "pystr list \<Rightarrow> cell \<Rightarrow> cell" where
  "categorical_cell cats c = (if c \<in> set (map Str cats) then c else NaN)"

definition categorical :: "pystr list \<Rightarrow> column \<Rightarrow> column" where
  "categorical cats col = Column (Category cats) (map (categorical_cell cats) (cells col))"

definition set_day_categorical :: "dataframe \<Rightarrow> error + dataframe" where
  "set_day_categorical df =
     and_then (get_col df (py ''Day'')) (\<lambda>col.
       Inr (set_col df (py ''Day'') (categorical day_categories col)))"

text \<open>
  \<open>pd.to_datetime(values, dayfirst=True, format="%d/%m/%Y")\<close>, cell by cell
  (\<open>dayfirst\<close> plays no role once a format is given). The empty string and the strings
  \<open>NaT\<close>, \<open>nat\<close>, \<open>NAT\<close>, \<open>nan\<close>, \<open>NaN\<close>, \<open>NAN\<close> stand for a missing date; any other
  string is parsed with the format. A missing value stays missing, a Timestamp is kept,
  and an integer, whose text has no slash, does not match the format.
\<close>

definition nat_strings :: "pystr list" where
  "nat_strings = [py ''NaT'', py ''nat'', py ''NAT'', py ''nan'', py ''NaN'', py ''NAN'']"

fun to_datetime_cell :: "cell \<Rightarrow> error + cell" where
  "to_datetime_cell (Str s) =
     (if s = [] \<or> s \<in> set nat_strings then Inr NaN
      else (case strptime_dmy s of
              None \<Rightarrow> Inl ValueError
            | Some d \<Rightarrow> if in_bounds d then Inr (Ts d) else Inl OutOfBoundsDatetime))"
| "to_datetime_cell NaN = Inr NaN"
| "to_datetime_cell (Ts d) = Inr (Ts d)"
| "to_datetime_cell (Num n) = Inl ValueError"

definition to_datetime :: "column \<Rightarrow> error + column" where
  "to_datetime col =
     and_then (map_result to_datetime_cell (cells col)) (\<lambda>cs. Inr (Column Datetime64 cs))"

definition parse_date_column :: "dataframe \<Rightarrow> error + dataframe" where
  "parse_date_column df =
     and_then (get_col df (py ''Date'')) (\<lambda>col.
     and_then (to_datetime col) (\<lambda>col'.
       Inr (set_col df (py ''Date'') col')))"

text \<open>
  The \<open>.str\<close> accessor of an object column looks at the cells that are not missing: it
  raises AttributeError when there are such cells and all of them are integers, or all
  of them are Timestamps. Otherwise \<open>.str.strip()\<close> strips the strings and gives a
  missing value for anything else.
\<close>

definition str_accessor :: "cell list \<Rightarrow> bool" where
  "str_accessor cs =
     (list_ex (\<lambda>c. case c of Str s \<Rightarrow> True | _ \<Rightarrow> False) cs
      \<or> list_all (\<lambda>c. c = NaN) cs
      \<or> (list_ex (\<lambda>c. case c of Num n \<Rightarrow> True | _ \<Rightarrow> False) cs
          \<and> list_ex (\<lambda>c. case c of Ts d \<Rightarrow> True | _ \<Rightarrow> False) cs))"

fun str_strip_cell :: "cell \<Rightarrow> cell" where
  "str_strip_cell (Str s) = Str (strip s)"
| "str_strip_cell c = NaN"

definition str_strip :: "cell list \<Rightarrow> error + cell list" where
  "str_strip cs = (if str_accessor cs then Inr (map str_strip_cell cs) else Inl AttributeError)"

text \<open>
  \<open>whitespace_remover\<close>: the labels are stripped first; the loop then visits every
  label, and \<open>df[i].dtype\<close> raises AttributeError at a label that two columns share
  (\<open>df[i]\<close> is a frame there). The cells of a column of dtype object are stripped, every
  other column is passed over.
\<close>

definition strip_column :: "column \<Rightarrow> error + column" where
  "strip_column col =
     (if dtype col = Object
      then and_then (str_strip (cells col)) (\<lambda>cs. Inr (Column Object cs))
      else Inr col)"

definition whitespace_remover :: "dataframe \<Rightarrow> error + dataframe" where
  "whitespace_remover df =
     (if distinct (map (\<lambda>(l, c). strip l) df)
      then map_result (\<lambda>(l, c). and_then (strip_column c) (\<lambda>c'. Inr (strip l, c'))) df
      else Inl AttributeError)"

subsection \<open>Value repair\<close>

text \<open>
  \<open>replace\<close> with a dictionary (or one pair) rewrites the cells that are equal to a
  key, as whole values, and keeps every other cell. A string is not equal to an integer,
  so a key that is a string leaves the integer 0 alone. The dtype that pandas infers for
  the rewritten column is read by no later statement; the model keeps the old one.
\<close>

definition replace_cell :: "(cell \<times> cell) list \<Rightarrow> cell \<Rightarrow> cell" where
  "replace_cell m c = (case map_of m c of None \<Rightarrow> c | Some v \<Rightarrow> v)"

definition replace_column :: "(cell \<times> cell) list \<Rightarrow> column \<Rightarrow> column" where
  "replace_column m col = Column (dtype col) (map (replace_cell m) (cells col))"

definition replace_up_to_1hr :: "dataframe \<Rightarrow> error + dataframe" where
  "replace_up_to_1hr df =
     and_then (get_col df (py ''Up to 1 hr'')) (\<lambda>col.
       Inr (set_col df (py ''Up to 1 hr'')
              (replace_column [(Str (py ''-''), Num 0), (Str (py ''1,678''), Num 167)] col)))"

definition replace_dash :: "dataframe \<Rightarrow> dataframe" where
  "replace_dash df = map (\<lambda>(l, c). (l, replace_column [(Str (py ''-''), Num 0)] c)) df"

text \<open>
  \<open>astype('int64')\<close>, cell by cell: an integer has to fit 64 bits, a string goes through
  \<open>int\<close>, a missing value cannot be converted. (A Timestamp never stands in a column
  the notebook casts; \<open>int\<close> refuses one.)
\<close>

fun astype_int64_cell :: "cell \<Rightarrow> error + cell" where
  "astype_int64_cell (Num n) = (if in_int64 n then Inr (Num n) else Inl OverflowError)"
| "astype_int64_cell (Str s) =
     (case py_int s of
        None \<Rightarrow> Inl ValueError
      | Some n \<Rightarrow> if in_int64 n then Inr (Num n) else Inl OverflowError)"
| "astype_int64_cell NaN = Inl ValueError"
| "astype_int64_cell (Ts d) = Inl TypeError"

definition astype_int64 :: "pystr \<Rightarrow> dataframe \<Rightarrow> error + dataframe" where
  "astype_int64 l df =
     and_then (get_col df l) (\<lambda>col.
     and_then (map_result astype_int64_cell (cells col)) (\<lambda>cs.
       Inr (set_col df l (Column Int64 cs))))"

definition comments_null :: "dataframe \<Rightarrow> error + dataframe" where
  "comments_null df =
     and_then (get_col df (py ''Comments'')) (\<lambda>col.
       Inr (set_col df (py ''Comments'') (replace_column [(Str (py ''0''), NaN)] col)))"

subsection \<open>Anomaly correction\<close>

text \<open>
  \<open>.apply(lambda x: 0 if x < 0 else x)\<close>: Python compares an integer with 0; NaN is not
  below 0; a string or a Timestamp cannot be compared with 0.
\<close>

fun floor_zero :: "cell \<Rightarrow> error + cell" where
  "floor_zero (Num n) = Inr (if n < 0 then Num 0 else Num n)"
| "floor_zero NaN = Inr NaN"
| "floor_zero (Str s) = Inl TypeError"
| "floor_zero (Ts d) = Inl TypeError"

definition clip_total :: "dataframe \<Rightarrow> error + dataframe" where
  "clip_total df =
     and_then (get_col df (py ''Total Exc Sub'')) (\<lambda>col.
     and_then (map_result floor_zero (cells col)) (\<lambda>cs.
       Inr (set_col df (py ''Total Exc Sub'') (Column (dtype col) cs))))"

subsection \<open>The cleaning pipeline\<close>

text \<open>
  The statements that rewrite \<open>ge_data\<close>, in the order of the notebook's cells.
\<close>

datatype stage =
  SetDayCategorical | ParseDate | WhitespaceRemover | ReplaceUpTo1hr | ReplaceDash
  | Astype pystr | CommentsNull | ClipTotal

fun exec :: "stage \<Rightarrow> dataframe \<Rightarrow> error + dataframe" where
  "exec SetDayCategorical df = set_day_categorical df"
| "exec ParseDate df = parse_date_column df"
| "exec WhitespaceRemover df = whitespace_remover df"
| "exec ReplaceUpTo1hr df = replace_up_to_1hr df"
| "exec ReplaceDash df = Inr (replace_dash df)"
| "exec (Astype l) df = astype_int64 l df"
| "exec CommentsNull df = comments_null df"
| "exec ClipTotal df = clip_total df"

fun run :: "stage list \<Rightarrow> dataframe \<Rightarrow> error + dataframe" where
  "run [] df = Inr df"
| "run (s # ss) df = and_then (exec s df) (run ss)"

definition schema_normalizer :: "stage list" where
  "schema_normalizer = [SetDayCategorical, ParseDate, WhitespaceRemover]"

definition repair_steps :: "stage list" where
  "repair_steps =
     [ReplaceUpTo1hr, Astype (py ''Up to 1 hr''),
      ReplaceDash,
      Astype (py ''1 to 2 hrs''), Astype (py ''2 to 3 hrs''), Astype (py ''3 to 4 hrs''),
      Astype (py ''4 to 5 hrs''), Astype (py ''5 to 6 hrs''), Astype (py ''6 to <24 hours''),
      Astype (py ''24 hours +''), Astype (py ''Subscribers''), Astype (py ''Total Exc Sub'')]"

definition value_repairer :: "stage list" where
  "value_repairer = repair_steps @ [CommentsNull]"

definition anomaly_corrector :: "stage list" where
  "anomaly_corrector = [ClipTotal]"

definition notebook :: "stage list" where
  "notebook = schema_normalizer @ value_repairer @ anomaly_corrector"

definition clean :: "dataframe \<Rightarrow> error + dataframe" where
  "clean df = run notebook df"

subsection \<open>Year subsets\<close>

text \<open>
  \<open>ge_data.loc[(ge_data['Date'] >= lo) & (ge_data['Date'] <= hi)]\<close>: the comparison of
  a Timestamp with each bound, false at a missing date; \<open>.loc\<close> keeps the rows where
  the mask is true, in every column.
\<close>

fun between_cell :: "date \<Rightarrow> date \<Rightarrow> cell \<Rightarrow> error + bool" where
  "between_cell lo hi (Ts d) = Inr (date_le lo d \<and> date_le d hi)"
| "between_cell lo hi NaN = Inr False"
| "between_cell lo hi (Str s) = Inl TypeError"
| "between_cell lo hi (Num n) = Inl TypeError"

definition date_mask :: "pystr \<Rightarrow> pystr \<Rightarrow> dataframe \<Rightarrow> error + bool list" where
  "date_mask lo hi df =
     and_then (get_col df (py ''Date'')) (\<lambda>col.
       (case (parse_iso lo, parse_iso hi) of
          (Some a, Some b) \<Rightarrow> map_result (between_cell a b) (cells col)
        | _ \<Rightarrow> Inl ValueError))"

definition loc_rows :: "bool list \<Rightarrow> dataframe \<Rightarrow> dataframe" where
  "loc_rows keep df =
     map (\<lambda>(l, c). (l, Column (dtype c) (map fst (filter snd (zip (cells c) keep))))) df"

definition year_slice :: "pystr \<Rightarrow> pystr \<Rightarrow> dataframe \<Rightarrow> error + dataframe" where
  "year_slice lo hi df = and_then (date_mask lo hi df) (\<lambda>keep. Inr (loc_rows keep df))"

definition ge2018_data :: "dataframe \<Rightarrow> error + dataframe" where
  "ge2018_data = year_slice (py ''2018-01-01'') (py ''2018-12-31'')"

definition ge2019_data :: "dataframe \<Rightarrow> error + dataframe" where
  "ge2019_data = year_slice (py ''2019-01-01'') (py ''2019-12-31'')"

definition ge2020_data :: "dataframe \<Rightarrow> error + dataframe" where
  "ge2020_data = year_slice (py ''2020-01-01'') (py ''2020-12-31'')"

definition ge2021_data :: "dataframe \<Rightarrow> error + dataframe" where
  "ge2021_data = year_slice (py ''2021-01-01'') (py ''2021-12-31'')"

definition ge2022_data :: "dataframe \<Rightarrow> error + dataframe" where
  "ge2022_data = year_slice (py ''2022-01-01'') (py ''2022-12-31'')"

section \<open>Invariants of the pipeline\<close>

text \<open>
  What the later stages keep: a cast column is of dtype int64 and holds integers of 64
  bits; after the replacement over the frame no cell of any column is \<open>-\<close>.
\<close>

definition is_int64 :: "cell \<Rightarrow> bool" where
  "is_int64 c = (case c of Num n \<Rightarrow> in_int64 n | _ \<Rightarrow> False)"

definition int_column :: "column \<Rightarrow> bool" where
  "int_column c = (dtype c = Int64 \<and> list_all is_int64 (cells c))"

definition no_dash :: "dataframe \<Rightarrow> bool" where
  "no_dash df = list_all (\<lambda>(l, c). Str (py ''-'') \<notin> set (cells c)) df"

text \<open>The stages that follow the first replacement, and those that follow the casts.\<close>

definition tail_stage :: "stage \<Rightarrow> bool" where
  "tail_stage s =
     (case s of ReplaceDash \<Rightarrow> True | Astype l \<Rightarrow> True | CommentsNull \<Rightarrow> True | _ \<Rightarrow> False)"

definition later_stage :: "stage \<Rightarrow> bool" where
  "later_stage s = (tail_stage s \<or> s = ClipTotal)"

definition non_negative :: "cell \<Rightarrow> bool" where
  "non_negative c = (case c of Num n \<Rightarrow> 0 \<le> n | _ \<Rightarrow> False)"

text \<open>The column a stage assigns to, for the stages that assign to one column.\<close>

definition column_stage :: "stage \<Rightarrow> pystr option" where
  "column_stage s =
     (case s of
        SetDayCategorical \<Rightarrow> Some (py ''Day'')
      | ParseDate \<Rightarrow> Some (py ''Date'')
      | ReplaceUpTo1hr \<Rightarrow> Some (py ''Up to 1 hr'')
      | Astype l \<Rightarrow> Some l
      | CommentsNull \<Rightarrow> Some (py ''Comments'')
      | ClipTotal \<Rightarrow> Some (py ''Total Exc Sub'')
      | _ \<Rightarrow> None)"

text \<open>What a parsed Date column holds: Timestamps and missing dates.\<close>

definition is_date_cell :: "cell \<Rightarrow> bool" where
  "is_date_cell x = (case x of Ts d \<Rightarrow> True | NaN \<Rightarrow> True | _ \<Rightarrow> False)"

text \<open>
  A comma, or the question mark that \<open>int\<close> writes for a character it cannot read:
  neither can stand in an integer.
\<close>

definition no_digit :: "int \<Rightarrow> bool" where
  "no_digit c = (c = of_char CHR '','' \<or> c = of_char CHR ''?'')"

text \<open>The columns the notebook casts with \<open>astype('int64')\<close>.\<close>

definition numeric_labels :: "pystr list" where
  "numeric_labels =
     [py ''Up to 1 hr'', py ''1 to 2 hrs'', py ''2 to 3 hrs'', py ''3 to 4 hrs'', py ''4 to 5 hrs'',
      py ''5 to 6 hrs'', py ''6 to <24 hours'', py ''24 hours +'', py ''Subscribers'', py ''Total Exc Sub'']"

section \<open>A sample day\<close>

text \<open>
  One row in the layout of the input file: the thirteen columns as \<open>read_csv\<close>
  returns them (text wherever a column holds a placeholder, integers in
  \<open>Total Exc Sub\<close>), with the four cells that the examples below vary.
\<close>

definition one_day :: "cell \<Rightarrow> cell \<Rightarrow> cell \<Rightarrow> cell \<Rightarrow> dataframe" where
  "one_day up tot subs comment =
     [(py ''Date'', Column Object [Str (py ''31/12/2022'')]),
      (py ''Day'', Column Object [Str (py ''Sat'')]),
      (py ''Up to 1 hr'', Column Object [up]),
      (py ''1 to 2 hrs'', Column Object [Str (py ''-'')]),
      (py ''2 to 3 hrs'', Column Object [Str (py ''310'')]),
      (py ''3 to 4 hrs'', Column Object [Str (py ''154'')]),
      (py ''4 to 5 hrs'', Column Object [Str (py ''75'')]),
      (py ''5 to 6 hrs'', Column Object [Str (py ''31'')]),
      (py ''6 to <24 hours'', Column Object [Str (py ''42'')]),
      (py ''24 hours +'', Column Object [Str (py ''3'')]),
      (py ''Total Exc Sub'', Column Int64 [tot]),
      (py ''Subscribers'', Column Object [subs]),
      (py ''Comments'', Column Object [comment])]"

section \<open>Basic facts\<close>

lemma py_eq_iff [simp]: "py a = py b \<longleftrightarrow> a = b"
  by (simp add: py_def inj_map_eq_map inj_def)

lemma and_then_Inr: "and_then m f = Inr y \<longleftrightarrow> (\<exists>x. m = Inr x \<and> f x = Inr y)"
  by (cases m) auto

lemma run_append: "run (xs @ ys) df = and_then (run xs df) (run ys)"
proof (induction xs arbitrary: df)
  case Nil
  show ?case by simp
next
  case (Cons s ss)
  show ?case by (cases "exec s df") (simp_all add: Cons.IH)
qed

lemma run_Cons_Inr: "run (s # ss) df = Inr d \<longleftrightarrow> (\<exists>e. exec s df = Inr e \<and> run ss e = Inr d)"
  by (simp add: and_then_Inr)

lemma run_append_Inr:
  "run (xs @ ys) df = Inr d \<longleftrightarrow> (\<exists>e. run xs df = Inr e \<and> run ys e = Inr d)"
  by (simp add: run_append and_then_Inr)

lemma map_result_map:
  "(\<And>x. x \<in> set xs \<Longrightarrow> f x = Inr (g x)) \<Longrightarrow> map_result f xs = Inr (map g xs)"
  by (induction xs) simp_all

lemma map_result_Inr:
  "map_result f xs = Inr ys \<Longrightarrow> list_all2 (\<lambda>x y. f x = Inr y) xs ys"
  by (induction xs arbitrary: ys) (auto split: sum.splits)

lemma get_col_set_col: "get_col (set_col df l c) k = (if k = l then Inr c else get_col df k)"
  by (induction df) (auto simp: get_col_def)

lemma set_col_same: "get_col df l = Inr c \<Longrightarrow> set_col df l c = df"
  by (induction df) (auto simp: get_col_def split: option.splits if_splits)

lemma get_col_map:
  "get_col (map (\<lambda>(l, c). (l, f c)) df) k =
     (case get_col df k of Inl e \<Rightarrow> Inl e | Inr c \<Rightarrow> Inr (f c))"
  by (induction df) (auto simp: get_col_def)



lemma astype_cell_is_int64: "astype_int64_cell x = Inr y \<Longrightarrow> is_int64 y"
  by (cases x) (auto simp: is_int64_def split: if_splits option.splits)

lemma astype_cell_fix: "is_int64 x \<Longrightarrow> astype_int64_cell x = Inr x"
  by (cases x) (simp_all add: is_int64_def)

lemma map_result_astype_int:
  "map_result astype_int64_cell xs = Inr ys \<Longrightarrow> list_all is_int64 ys"
proof (induction xs arbitrary: ys)
  case Nil
  then show ?case by simp
next
  case (Cons x xs)
  then show ?case by (auto split: sum.splits dest: astype_cell_is_int64)
qed

lemma map_result_astype_fix:
  "list_all is_int64 xs \<Longrightarrow> map_result astype_int64_cell xs = Inr xs"
  by (induction xs) (simp_all add: astype_cell_fix)

lemma astype_int64_result:
  assumes "astype_int64 l df = Inr df'"
  shows "\<exists>c. get_col df' l = Inr c \<and> int_column c"
proof -
  from assms obtain col cs where
    "map_result astype_int64_cell (cells col) = Inr cs" and "df' = set_col df l (Column Int64 cs)"
    by (auto simp: astype_int64_def and_then_Inr)
  then show ?thesis
    by (simp add: get_col_set_col int_column_def map_result_astype_int)
qed

lemma astype_int64_fix:
  assumes "get_col df l = Inr c" and "int_column c"
  shows "astype_int64 l df = Inr df"
proof -
  have "map_result astype_int64_cell (cells c) = Inr (cells c)"
    using assms(2) by (simp add: int_column_def map_result_astype_fix)
  moreover have "Column Int64 (cells c) = c"
    using assms(2) by (cases c) (simp add: int_column_def)
  ultimately show ?thesis
    using assms(1) by (simp add: astype_int64_def set_col_same)
qed

lemma astype_int64_other:
  "astype_int64 k df = Inr df' \<Longrightarrow> k \<noteq> l \<Longrightarrow> get_col df' l = get_col df l"
  by (auto simp: astype_int64_def and_then_Inr get_col_set_col)

lemma replace_cell_int:
  "is_int64 x \<Longrightarrow> replace_cell [(Str a, v)] x = x"
  "is_int64 x \<Longrightarrow> replace_cell [(Str a, v), (Str b, w)] x = x"
  by (cases x; simp add: is_int64_def replace_cell_def)+

lemma replace_column_int:
  assumes "int_column c"
  shows "replace_column [(Str a, v)] c = c"
    and "replace_column [(Str a, v), (Str b, w)] c = c"
proof -
  have "map (replace_cell [(Str a, v)]) (cells c) = cells c"
    using assms by (auto simp: int_column_def list_all_iff replace_cell_int intro: map_idI)
  moreover have "map (replace_cell [(Str a, v), (Str b, w)]) (cells c) = cells c"
    using assms by (auto simp: int_column_def list_all_iff replace_cell_int intro: map_idI)
  ultimately show "replace_column [(Str a, v)] c = c"
    and "replace_column [(Str a, v), (Str b, w)] c = c"
    by (cases c; simp add: replace_column_def)+
qed

lemma tail_stage_keeps_int:
  assumes "tail_stage s" and "exec s df = Inr df'"
    and "get_col df l = Inr c" and "int_column c" and "l \<noteq> py ''Comments''"
  shows "get_col df' l = Inr c"
proof (cases s)
  case ReplaceDash
  then show ?thesis
    using assms by (auto simp: replace_dash_def get_col_map replace_column_int)
next
  case (Astype k)
  show ?thesis
  proof (cases "k = l")
    case True
    then show ?thesis using assms Astype by (simp add: astype_int64_fix)
  next
    case False
    then show ?thesis using assms Astype by (simp add: astype_int64_other)
  qed
next
  case CommentsNull
  then show ?thesis
    using assms by (auto simp: comments_null_def and_then_Inr get_col_set_col)
qed (use assms in \<open>simp_all add: tail_stage_def\<close>)

lemma run_tail_keeps_int:
  assumes "list_all tail_stage ss" and "run ss df = Inr df'"
    and "get_col df l = Inr c" and "int_column c" and "l \<noteq> py ''Comments''"
  shows "get_col df' l = Inr c"
  using assms
proof (induction ss arbitrary: df)
  case Nil
  then show ?case by simp
next
  case (Cons s ss)
  from Cons.prems(2) obtain e where e: "exec s df = Inr e" "run ss e = Inr df'"
    by (auto simp: and_then_Inr)
  have "get_col e l = Inr c"
    using tail_stage_keeps_int [OF _ e(1) Cons.prems(3,4,5)] Cons.prems(1) by simp
  then show ?case
    using Cons.IH [OF _ e(2)] Cons.prems by simp
qed

lemmas stage_lists =
  notebook_def schema_normalizer_def value_repairer_def repair_steps_def anomaly_corrector_def

lemma is_int64_list: "list_all is_int64 xs \<Longrightarrow> \<exists>ns. xs = map Num ns"
proof (induction xs)
  case Nil
  then show ?case by simp
next
  case (Cons x xs)
  then obtain ns where "xs = map Num ns" by auto
  moreover from Cons.prems obtain n where "x = Num n"
    by (cases x) (simp_all add: is_int64_def)
  ultimately have "x # xs = map Num (n # ns)" by simp
  then show ?case by (rule exI)
qed

lemma clean_split: "clean df0 = and_then (run (schema_normalizer @ value_repairer) df0) clip_total"
proof -
  have "clean df0 = and_then (run (schema_normalizer @ value_repairer) df0) (run anomaly_corrector)"
    unfolding clean_def notebook_def by (simp only: append_assoc [symmetric] run_append)
  also have "run anomaly_corrector = clip_total"
    by (rule ext) (simp add: anomaly_corrector_def, case_tac "clip_total x", simp_all)
  finally show ?thesis .
qed

lemma run_tail_casts:
  assumes "list_all tail_stage ss" and "Astype l \<in> set ss" and "l \<noteq> py ''Comments''"
    and "run ss df = Inr d"
  shows "\<exists>c. get_col d l = Inr c \<and> int_column c"
  using assms
proof (induction ss arbitrary: df)
  case Nil
  then show ?case by simp
next
  case (Cons s ss)
  from Cons.prems(4) obtain e where e: "exec s df = Inr e" "run ss e = Inr d"
    by (auto simp: and_then_Inr)
  show ?case
  proof (cases "Astype l \<in> set ss")
    case True
    with Cons.IH [OF _ _ Cons.prems(3) e(2)] Cons.prems(1) show ?thesis by simp
  next
    case False
    with Cons.prems(2) have "s = Astype l" by simp
    with e(1) have "astype_int64 l df = Inr e" by simp
    from astype_int64_result [OF this] obtain c where c: "get_col e l = Inr c" "int_column c"
      by blast
    have "get_col d l = Inr c"
      using run_tail_keeps_int [OF _ e(2) c Cons.prems(3)] Cons.prems(1) by simp
    with c show ?thesis by blast
  qed
qed

lemma repaired_numeric:
  assumes "run (schema_normalizer @ value_repairer) df0 = Inr d" and "l \<in> set numeric_labels"
  shows "\<exists>c. get_col d l = Inr c \<and> int_column c"
proof -
  have "schema_normalizer @ value_repairer =
      (schema_normalizer @ [ReplaceUpTo1hr]) @ tl value_repairer"
    by (simp add: stage_lists)
  with assms(1) obtain a where "run (tl value_repairer) a = Inr d"
    by (auto simp only: run_append_Inr)
  moreover have "list_all tail_stage (tl value_repairer)"
    by (simp add: stage_lists tail_stage_def)
  moreover have "Astype l \<in> set (tl value_repairer)"
    using assms(2) by (auto simp: stage_lists numeric_labels_def)
  moreover have "l \<noteq> py ''Comments''"
    using assms(2) by (auto simp: numeric_labels_def)
  ultimately show ?thesis
    using run_tail_casts by blast
qed

lemma is_int64_Num: "is_int64 x \<Longrightarrow> \<exists>n. x = Num n \<and> in_int64 n"
  by (cases x) (simp_all add: is_int64_def)

lemma non_negative_Num: "non_negative x \<Longrightarrow> \<exists>n. x = Num n \<and> 0 \<le> n"
  by (cases x) (simp_all add: non_negative_def)

lemma floor_zero_cell:
  assumes "is_int64 x"
  shows "\<exists>y. floor_zero x = Inr y \<and> is_int64 y \<and> non_negative y"
proof -
  from is_int64_Num [OF assms] obtain n where "x = Num n" "in_int64 n" by blast
  then show ?thesis
    by (simp add: is_int64_def non_negative_def in_int64_def)
qed

lemma floor_zero_int:
  "list_all is_int64 xs \<Longrightarrow>
     \<exists>ys. map_result floor_zero xs = Inr ys \<and> list_all is_int64 ys \<and> list_all non_negative ys"
proof (induction xs)
  case Nil
  then show ?case by simp
next
  case (Cons x xs)
  then obtain ys where ys: "map_result floor_zero xs = Inr ys" "list_all is_int64 ys"
      "list_all non_negative ys"
    by auto
  from Cons.prems have "is_int64 x" by simp
  from floor_zero_cell [OF this] obtain y where
    "floor_zero x = Inr y" "is_int64 y" "non_negative y" by blast
  with ys show ?case by simp
qed

lemma clip_total_total:
  assumes "clip_total d = Inr df" and "get_col d (py ''Total Exc Sub'') = Inr c" and "int_column c"
  shows "\<exists>c'. get_col df (py ''Total Exc Sub'') = Inr c' \<and> int_column c' \<and>
           list_all non_negative (cells c')"
proof -
  from assms(1,2) obtain cs where cs: "map_result floor_zero (cells c) = Inr cs"
    and df: "df = set_col d (py ''Total Exc Sub'') (Column (dtype c) cs)"
    by (auto simp: clip_total_def and_then_Inr)
  from assms(3) have "list_all is_int64 (cells c)" by (simp add: int_column_def)
  from floor_zero_int [OF this] cs have "list_all is_int64 cs" "list_all non_negative cs"
    by auto
  with assms(3) df show ?thesis
    by (simp add: get_col_set_col int_column_def)
qed

lemma clip_total_numeric:
  assumes "clip_total d = Inr df" and "get_col d l = Inr c" and "int_column c"
  shows "\<exists>c'. get_col df l = Inr c' \<and> int_column c'"
proof (cases "l = py ''Total Exc Sub''")
  case True
  with clip_total_total [OF assms(1) _ assms(3)] assms(2) show ?thesis by auto
next
  case False
  from assms(1) obtain col where "df = set_col d (py ''Total Exc Sub'') col"
    by (auto simp: clip_total_def and_then_Inr)
  with False assms(2,3) show ?thesis by (simp add: get_col_set_col)
qed

lemma map_result_fst:
  assumes "map_result f xs = Inr ys" and "\<And>x y. f x = Inr y \<Longrightarrow> fst y = g x"
  shows "map fst ys = map g xs"
  using assms
proof (induction xs arbitrary: ys)
  case Nil
  then show ?case by simp
next
  case (Cons x xs)
  then show ?case by (auto split: sum.splits)
qed

lemma map_result_mem:
  assumes "map_result f xs = Inr ys" and "x \<in> set xs"
  shows "\<exists>y \<in> set ys. f x = Inr y"
  using assms
proof (induction xs arbitrary: ys)
  case Nil
  then show ?case by simp
next
  case (Cons a xs)
  then show ?case by (auto split: sum.splits)
qed

lemma whitespace_remover_col:
  assumes "whitespace_remover df = Inr df'" and "(l, c) \<in> set df"
  shows "\<exists>c'. strip_column c = Inr c' \<and> get_col df' (strip l) = Inr c'"
proof -
  let ?f = "\<lambda>(l, c). and_then (strip_column c) (\<lambda>c'. Inr (strip l, c'))"
  from assms(1) have d: "distinct (map (\<lambda>(l, c). strip l) df)"
    and df': "map_result ?f df = Inr df'"
    by (auto simp: whitespace_remover_def split: if_splits)
  have "map fst df' = map (\<lambda>(l, c). strip l) df"
    by (rule map_result_fst [OF df']) (auto simp: and_then_Inr)
  with d have "distinct (map fst df')" by simp
  moreover from map_result_mem [OF df' assms(2)] obtain c' where
    "strip_column c = Inr c'" "(strip l, c') \<in> set df'"
    by (auto simp: and_then_Inr)
  ultimately show ?thesis
    by (auto simp: get_col_def dest: map_of_is_SomeI)
qed

lemma get_col_mem: "get_col df l = Inr c \<Longrightarrow> (l, c) \<in> set df"
  by (auto simp: get_col_def split: option.splits dest: map_of_SomeD)

lemma run_single: "run [s] df = exec s df"
  by (cases "exec s df") simp_all

lemma strip_labels:
  "strip (py ''Day'') = py ''Day''" "strip (py ''Date'') = py ''Date''" "strip (py ''Comments'') = py ''Comments''"
  by code_simp+

subsection \<open>Date fields\<close>

text \<open>In the strings below 47 is the code point of the slash.\<close>

lemma digit_cases:
  assumes "is_digit c"
  obtains x where "c = 48 + int x" and "x \<le> 9" and "digit_val c = x"
proof
  from assms show "c = 48 + int (nat (c - 48))" "nat (c - 48) \<le> 9" "digit_val c = nat (c - 48)"
    by (auto simp: is_digit_def digit_val_def)
qed

lemma decimal_digit: "is_digit c \<Longrightarrow> decimal c = Some (digit_val c)"
  by (simp add: decimal_def decimal_zeros_def is_digit_def digit_val_def)

lemma days_in_month_le: "days_in_month y m \<le> 31"
  by (simp add: days_in_month_def)

lemma day_field:
  assumes "is_digit a" and "is_digit b"
  shows "(case directive_d (a # b # 47 # r) of
            None \<Rightarrow> None
          | Some (v, s1) \<Rightarrow> (case literal CHR ''/'' s1 of None \<Rightarrow> None | Some s2 \<Rightarrow> Some (v, s2)))
         = (if 1 \<le> 10 * digit_val a + digit_val b \<and> 10 * digit_val a + digit_val b \<le> 31
            then Some (10 * digit_val a + digit_val b, r) else None)"
proof -
  from assms(1) obtain x where x: "a = 48 + int x" "x \<le> 9" "digit_val a = x"
    by (rule digit_cases)
  from assms(2) obtain y where y: "b = 48 + int y" "y \<le> 9" "digit_val b = y"
    by (rule digit_cases)
  have d: "decimal (48 + int y) = Some y" using decimal_digit [OF assms(2)] y by simp
  have v: "digit_val (48 + int x) = x" "digit_val (48 + int y) = y"
    using x y by simp_all
  show ?thesis
    unfolding directive_d_def digit_digit_def digit_decimal_def one_digit_def blank_digit_def
      literal_def in_range_def x(1) y(1)
    using x(2) y(2) by (simp add: d v digit_val_def; arith)
qed

lemma month_field:
  assumes "is_digit a" and "is_digit b"
  shows "(case directive_m (a # b # 47 # r) of
            None \<Rightarrow> None
          | Some (v, s1) \<Rightarrow> (case literal CHR ''/'' s1 of None \<Rightarrow> None | Some s2 \<Rightarrow> Some (v, s2)))
         = (if 1 \<le> 10 * digit_val a + digit_val b \<and> 10 * digit_val a + digit_val b \<le> 12
            then Some (10 * digit_val a + digit_val b, r) else None)"
proof -
  from assms(1) obtain x where x: "a = 48 + int x" "x \<le> 9" "digit_val a = x"
    by (rule digit_cases)
  from assms(2) obtain y where y: "b = 48 + int y" "y \<le> 9" "digit_val b = y"
    by (rule digit_cases)
  have v: "digit_val (48 + int x) = x" "digit_val (48 + int y) = y"
    using x y by simp_all
  show ?thesis
    unfolding directive_m_def digit_digit_def one_digit_def literal_def in_range_def x(1) y(1)
    using x(2) y(2) by (simp add: v digit_val_def; arith)
qed

lemma year_field:
  assumes "is_digit e" and "is_digit f" and "is_digit g" and "is_digit h"
  shows "directive_Y [e, f, g, h] =
           Some (1000 * digit_val e + 100 * digit_val f + 10 * digit_val g + digit_val h, [])"
  using assms by (simp add: directive_Y_def decimal_digit)

lemma strptime_dmy_fields:
  "strptime_dmy s =
     (case (case directive_d s of
            None \<Rightarrow> None
          | Some (v, s1) \<Rightarrow> (case literal CHR ''/'' s1 of None \<Rightarrow> None | Some s2 \<Rightarrow> Some (v, s2))) of
        None \<Rightarrow> None
      | Some (d, s2) \<Rightarrow>
     (case (case directive_m s2 of
            None \<Rightarrow> None
          | Some (v, s3) \<Rightarrow> (case literal CHR ''/'' s3 of None \<Rightarrow> None | Some s4 \<Rightarrow> Some (v, s4))) of
        None \<Rightarrow> None
      | Some (m, s4) \<Rightarrow>
     (case directive_Y s4 of
        None \<Rightarrow> None
      | Some (y, s5) \<Rightarrow>
          if s5 = [] \<and> valid_date (Date y m d) then Some (Date y m d) else None)))"
  by (simp add: strptime_dmy_def split: option.splits prod.splits)

text \<open>A string of digits and slashes is none of the strings that stand for a missing date.\<close>

lemma dated_not_missing:
  "[a, b, 47, c, d, 47, e, f, g, h] \<noteq> []"
  "[a, b, 47, c, d, 47, e, f, g, h] \<notin> set nat_strings"
  by (simp_all add: nat_strings_def py_def)

lemma strptime_day_first:
  assumes "list_all is_digit [a, b, c, d, e, f, g, h]"
  shows "strptime_dmy [a, b, 47, c, d, 47, e, f, g, h] =
           (let dt = Date (1000 * digit_val e + 100 * digit_val f + 10 * digit_val g + digit_val h)
                          (10 * digit_val c + digit_val d)
                          (10 * digit_val a + digit_val b)
            in if valid_date dt then Some dt else None)"
proof -
  let ?D = "10 * digit_val a + digit_val b"
  let ?M = "10 * digit_val c + digit_val d"
  have v: "valid_date (Date y ?M ?D) \<Longrightarrow> 1 \<le> ?D \<and> ?D \<le> 31 \<and> 1 \<le> ?M \<and> ?M \<le> 12" for y
    using days_in_month_le [of y ?M] by (simp add: valid_date_def)
  show ?thesis
    using assms v
    by (auto simp: strptime_dmy_fields day_field month_field year_field Let_def)
qed

subsection \<open>Replacement\<close>

lemma replace_cell_dash: "replace_cell [(Str (py ''-''), Num 0)] x = (if x = Str (py ''-'') then Num 0 else x)"
  by (simp add: replace_cell_def)

lemma replace_cell_up:
  "replace_cell [(Str (py ''-''), Num 0), (Str (py ''1,678''), Num 167)] x =
     (if x = Str (py ''-'') then Num 0 else if x = Str (py ''1,678'') then Num 167 else x)"
  by (simp add: replace_cell_def)

lemma replace_cell_zero: "replace_cell [(Str (py ''0''), NaN)] x = (if x = Str (py ''0'') then NaN else x)"
  by (simp add: replace_cell_def)

lemma replace_column_absent:
  assumes "k \<notin> set (cells c)"
  shows "replace_column [(k, v)] c = c"
proof -
  have "map (replace_cell [(k, v)]) (cells c) = cells c"
    using assms by (auto simp: replace_cell_def intro: map_idI)
  then show ?thesis by (cases c) (simp add: replace_column_def)
qed

lemma replace_dash_cells:
  "map (\<lambda>(l, c). (l, cells c)) (replace_dash df) =
     map (\<lambda>(l, c). (l, map (\<lambda>x. if x = Str (py ''-'') then Num 0 else x) (cells c))) df"
  by (simp add: replace_dash_def replace_column_def replace_cell_dash [abs_def] case_prod_unfold)

lemma no_dash_col: "no_dash df \<Longrightarrow> (l, c) \<in> set df \<Longrightarrow> Str (py ''-'') \<notin> set (cells c)"
  by (auto simp: no_dash_def list_all_iff)

lemma no_dash_replace_dash: "no_dash (replace_dash df)"
  by (auto simp: no_dash_def replace_dash_def list_all_iff replace_column_def replace_cell_dash)

lemma replace_dash_fix:
  assumes "no_dash df"
  shows "replace_dash df = df"
proof -
  have "(case x of (l, c) \<Rightarrow> (l, replace_column [(Str (py ''-''), Num 0)] c)) = x"
    if "x \<in> set df" for x
  proof -
    obtain l c where x: "x = (l, c)" by (cases x)
    with that assms have "Str (py ''-'') \<notin> set (cells c)" by (auto dest: no_dash_col)
    then show ?thesis by (simp add: x replace_column_absent)
  qed
  then show ?thesis
    unfolding replace_dash_def by (rule map_idI)
qed

lemma no_dash_set_col:
  "no_dash df \<Longrightarrow> Str (py ''-'') \<notin> set (cells c) \<Longrightarrow> no_dash (set_col df l c)"
  by (induction df) (auto simp: no_dash_def)

lemma int_cells_no_str: "list_all is_int64 xs \<Longrightarrow> Str s \<notin> set xs"
  by (auto simp: list_all_iff is_int64_def)

lemma floor_zero_no_str: "map_result floor_zero xs = Inr ys \<Longrightarrow> Str s \<notin> set ys"
proof (induction xs arbitrary: ys)
  case Nil
  then show ?case by simp
next
  case (Cons x xs)
  then show ?case by (cases x) (auto split: sum.splits if_splits)
qed

lemma later_stage_no_dash:
  assumes "later_stage s" and "exec s df = Inr df'" and "no_dash df"
  shows "no_dash df'"
proof (cases s)
  case ReplaceDash
  with assms(2) show ?thesis by (auto simp: no_dash_replace_dash)
next
  case (Astype l)
  with assms(2) obtain cs col where "map_result astype_int64_cell (cells col) = Inr cs"
    and "df' = set_col df l (Column Int64 cs)"
    by (auto simp: astype_int64_def and_then_Inr)
  with assms(3) show ?thesis
    by (simp add: no_dash_set_col int_cells_no_str map_result_astype_int)
next
  case CommentsNull
  with assms(2) obtain col where col: "get_col df (py ''Comments'') = Inr col"
    and df': "df' = set_col df (py ''Comments'') (replace_column [(Str (py ''0''), NaN)] col)"
    by (auto simp: comments_null_def and_then_Inr)
  from col assms(3) have "Str (py ''-'') \<notin> set (cells col)"
    by (auto dest: get_col_mem no_dash_col)
  then have "Str (py ''-'') \<notin> set (cells (replace_column [(Str (py ''0''), NaN)] col))"
    by (auto simp: replace_column_def replace_cell_zero)
  with assms(3) df' show ?thesis by (simp add: no_dash_set_col)
next
  case ClipTotal
  with assms(2) obtain col cs where "map_result floor_zero (cells col) = Inr cs"
    and "df' = set_col df (py ''Total Exc Sub'') (Column (dtype col) cs)"
    by (auto simp: clip_total_def and_then_Inr)
  with assms(3) show ?thesis
    by (simp add: no_dash_set_col floor_zero_no_str)
qed (use assms(1) in \<open>simp_all add: later_stage_def tail_stage_def\<close>)

lemma run_later_no_dash:
  assumes "list_all later_stage ss" and "run ss df = Inr df'" and "no_dash df"
  shows "no_dash df'"
  using assms
proof (induction ss arbitrary: df)
  case Nil
  then show ?case by simp
next
  case (Cons s ss)
  from Cons.prems(2) obtain e where e: "exec s df = Inr e" "run ss e = Inr df'"
    by (auto simp: and_then_Inr)
  from Cons.prems(1,3) e(1) have "no_dash e"
    by (auto intro: later_stage_no_dash)
  with Cons.IH [OF _ e(2)] Cons.prems(1) show ?case by simp
qed

lemma run_after_replace_dash:
  assumes "run (pre @ ReplaceDash # post) df0 = Inr d" and "list_all later_stage post"
  shows "no_dash d"
proof -
  from assms(1) obtain a where "run post (replace_dash a) = Inr d"
    by (auto simp: run_append_Inr and_then_Inr)
  with assms(2) show ?thesis
    by (rule run_later_no_dash) (rule no_dash_replace_dash)
qed

subsection \<open>Positions in the notebook\<close>

lemma notebook_stages:
  "notebook =
     [SetDayCategorical, ParseDate, WhitespaceRemover, ReplaceUpTo1hr, Astype (py ''Up to 1 hr'')] @
     ReplaceDash #
     [Astype (py ''1 to 2 hrs''), Astype (py ''2 to 3 hrs''), Astype (py ''3 to 4 hrs''),
      Astype (py ''4 to 5 hrs''), Astype (py ''5 to 6 hrs''), Astype (py ''6 to <24 hours''),
      Astype (py ''24 hours +''), Astype (py ''Subscribers''), Astype (py ''Total Exc Sub''),
      CommentsNull, ClipTotal]"
  by (simp add: stage_lists)

lemma cast_positions:
  assumes "i < length notebook" and "notebook ! i = Astype l"
  shows "i = 4 \<and> l = py ''Up to 1 hr'' \<or> 6 \<le> i \<and> l \<noteq> py ''Up to 1 hr''"
  using assms unfolding notebook_stages
  by (auto simp: nth_Cons' split: if_splits)

lemma take_notebook:
  assumes "6 \<le> i"
  shows "\<exists>post. take i notebook =
           [SetDayCategorical, ParseDate, WhitespaceRemover, ReplaceUpTo1hr, Astype (py ''Up to 1 hr'')]
           @ ReplaceDash # post \<and> list_all later_stage post"
proof -
  let ?post = "[Astype (py ''1 to 2 hrs''), Astype (py ''2 to 3 hrs''), Astype (py ''3 to 4 hrs''),
      Astype (py ''4 to 5 hrs''), Astype (py ''5 to 6 hrs''), Astype (py ''6 to <24 hours''),
      Astype (py ''24 hours +''), Astype (py ''Subscribers''), Astype (py ''Total Exc Sub''),
      CommentsNull, ClipTotal]"
  have "list_all later_stage ?post"
    by (simp add: later_stage_def tail_stage_def)
  then have "list_all later_stage (take (i - 6) ?post)"
    by (auto simp: list_all_iff dest: in_set_takeD)
  moreover have "take i notebook =
      [SetDayCategorical, ParseDate, WhitespaceRemover, ReplaceUpTo1hr, Astype (py ''Up to 1 hr'')]
      @ ReplaceDash # take (i - 6) ?post"
  proof -
    from assms obtain k where "i = 6 + k" by (auto simp: le_iff_add)
    then show ?thesis by (simp add: notebook_stages take_Cons')
  qed
  ultimately show ?thesis by blast
qed

subsection \<open>Integers from text\<close>

lemma in_dropWhile: "x \<in> set xs \<Longrightarrow> \<not> P x \<Longrightarrow> x \<in> set (dropWhile P xs)"
  by (induction xs) auto

lemma no_digit_facts:
  assumes "no_digit c"
  shows "\<not> is_digit c" and "\<not> c_space c" and "c \<noteq> 95" and "c \<noteq> 45" and "c \<noteq> 43"
  using assms by (auto simp: no_digit_def is_digit_def c_space_def)

lemma to_ascii_comma:
  "of_char CHR '','' \<in> set s \<Longrightarrow> \<exists>c \<in> set (to_ascii s). no_digit c"
proof (induction s)
  case Nil
  then show ?case by simp
next
  case (Cons a s)
  show ?case
  proof (cases "a = of_char CHR '',''")
    case True
    then show ?thesis by (simp add: no_digit_def)
  next
    case False
    with Cons have "\<exists>c \<in> set (to_ascii s). no_digit c" by simp
    then show ?thesis by (auto simp: no_digit_def split: option.splits)
  qed
qed

lemma digits_value_no_digit:
  "x \<in> set s \<Longrightarrow> no_digit x \<Longrightarrow> digits_value acc s = None"
proof (induction acc s rule: digits_value.induct)
  case (1 acc)
  then show ?case by simp
next
  case (2 acc c)
  then show ?case by (simp add: no_digit_facts)
next
  case (3 acc c d ds)
  show ?case
  proof (cases "is_digit c")
    case True
    with 3(3,4) have "x \<noteq> c" by (auto simp: no_digit_facts)
    with 3 True show ?thesis by simp
  next
    case False
    show ?thesis
    proof (cases "c = of_char CHR ''_'' \<and> is_digit d")
      case True
      with 3(3,4) have "x \<noteq> c" "x \<noteq> d" by (auto simp: no_digit_facts)
      with 3 True False show ?thesis by simp
    next
      case False
      with \<open>\<not> is_digit c\<close> show ?thesis by auto
    qed
  qed
qed

lemma py_digits_no_digit:
  assumes "x \<in> set s" and "no_digit x"
  shows "py_digits s = None"
proof (cases s)
  case Nil
  then show ?thesis by (simp add: py_digits_def)
next
  case (Cons c cs)
  show ?thesis
  proof (cases "is_digit c")
    case True
    with assms(2) have "x \<noteq> c" by (auto simp: no_digit_facts)
    with assms Cons have "x \<in> set cs" by simp
    then show ?thesis using Cons True assms(2) by (simp add: py_digits_def digits_value_no_digit)
  next
    case False
    then show ?thesis using Cons by (simp add: py_digits_def)
  qed
qed

lemma py_int_comma:
  assumes "of_char CHR '','' \<in> set s"
  shows "py_int s = None"
proof -
  from to_ascii_comma [OF assms] obtain x where x: "x \<in> set (to_ascii s)" "no_digit x"
    by blast
  let ?t = "rev (dropWhile c_space (rev (dropWhile c_space (to_ascii s))))"
  from x have m: "x \<in> set ?t"
    by (simp add: in_dropWhile no_digit_facts)
  show ?thesis
  proof (cases ?t)
    case Nil
    with m show ?thesis by simp
  next
    case (Cons c cs)
    show ?thesis
    proof (cases "c = x")
      case True
      have "py_digits (c # cs) = None"
        by (rule py_digits_no_digit [of x]) (simp_all add: True x)
      then show ?thesis using Cons True x(2) by (simp add: py_int_def no_digit_facts)
    next
      case False
      with m Cons have "x \<in> set cs" by simp
      then have "py_digits cs = None" "py_digits (c # cs) = None"
        using x(2) py_digits_no_digit [of x cs] py_digits_no_digit [of x "c # cs"] by simp_all
      then show ?thesis using Cons by (simp add: py_int_def)
    qed
  qed
qed

subsection \<open>The cleaned frame\<close>

lemma cleaned_numeric:
  assumes "clean df0 = Inr df" and "l \<in> set numeric_labels"
  shows "\<exists>c. get_col df l = Inr c \<and> int_column c"
proof -
  from assms(1) obtain d where d: "run (schema_normalizer @ value_repairer) df0 = Inr d"
    and cl: "clip_total d = Inr df"
    by (auto simp: clean_split and_then_Inr)
  from repaired_numeric [OF d assms(2)] obtain c where "get_col d l = Inr c" "int_column c"
    by blast
  from clip_total_numeric [OF cl this] show ?thesis .
qed

lemma cleaned_no_dash:
  assumes "clean df0 = Inr df"
  shows "no_dash df"
proof -
  have "list_all later_stage
     [Astype (py ''1 to 2 hrs''), Astype (py ''2 to 3 hrs''), Astype (py ''3 to 4 hrs''),
      Astype (py ''4 to 5 hrs''), Astype (py ''5 to 6 hrs''), Astype (py ''6 to <24 hours''),
      Astype (py ''24 hours +''), Astype (py ''Subscribers''), Astype (py ''Total Exc Sub''),
      CommentsNull, ClipTotal]"
    by (simp add: later_stage_def tail_stage_def)
  with assms show ?thesis
    unfolding clean_def notebook_stages by (rule run_after_replace_dash)
qed

lemma cleaned_comments:
  assumes "clean df0 = Inr df"
  shows "\<exists>c. get_col df (py ''Comments'') = Inr c \<and> Str (py ''0'') \<notin> set (cells c)"
proof -
  from assms obtain d where d: "run (schema_normalizer @ value_repairer) df0 = Inr d"
    and cl: "clip_total d = Inr df"
    by (auto simp: clean_split and_then_Inr)
  from d obtain a where "comments_null a = Inr d"
    by (auto simp: value_repairer_def run_append_Inr and_then_Inr simp flip: append_assoc)
  then obtain col where "d = set_col a (py ''Comments'') (replace_column [(Str (py ''0''), NaN)] col)"
    by (auto simp: comments_null_def and_then_Inr)
  then have "get_col d (py ''Comments'') = Inr (replace_column [(Str (py ''0''), NaN)] col)"
    by (simp add: get_col_set_col)
  moreover from cl obtain c' where "df = set_col d (py ''Total Exc Sub'') c'"
    by (auto simp: clip_total_def and_then_Inr)
  ultimately have "get_col df (py ''Comments'') = Inr (replace_column [(Str (py ''0''), NaN)] col)"
    by (simp add: get_col_set_col)
  moreover have "Str (py ''0'') \<notin> set (cells (replace_column [(Str (py ''0''), NaN)] col))"
    by (auto simp: replace_column_def replace_cell_zero)
  ultimately show ?thesis by blast
qed

lemma run_fix: "(\<And>s. s \<in> set ss \<Longrightarrow> exec s df = Inr df) \<Longrightarrow> run ss df = Inr df"
  by (induction ss) simp_all

lemma value_repairer_casts:
  "value_repairer =
     [ReplaceUpTo1hr, Astype (hd numeric_labels), ReplaceDash]
     @ map Astype (tl numeric_labels) @ [CommentsNull]"
  by (simp add: stage_lists numeric_labels_def)

lemma cleaned_stage_fix:
  assumes "clean df0 = Inr df" and "s \<in> set value_repairer"
  shows "exec s df = Inr df"
proof -
  consider "s = ReplaceUpTo1hr" | "s = ReplaceDash" | "s = CommentsNull"
    | l where "s = Astype l" "l \<in> set numeric_labels"
  proof -
    have "hd numeric_labels \<in> set numeric_labels"
      by (rule hd_in_set) (simp add: numeric_labels_def)
    moreover have "set (tl numeric_labels) \<subseteq> set numeric_labels"
      using set_subset_Cons [of "tl numeric_labels" "hd numeric_labels"]
      by (simp add: numeric_labels_def)
    ultimately have "s = ReplaceUpTo1hr \<or> s = ReplaceDash \<or> s = CommentsNull
        \<or> (\<exists>l. s = Astype l \<and> l \<in> set numeric_labels)"
      using assms(2) unfolding value_repairer_casts by auto
    then show ?thesis using that by blast
  qed
  then show ?thesis
  proof cases
    case 1
    have "(py ''Up to 1 hr'') \<in> set numeric_labels" by (simp add: numeric_labels_def)
    from cleaned_numeric [OF assms(1) this] obtain c where
      c: "get_col df (py ''Up to 1 hr'') = Inr c" "int_column c" by blast
    then show ?thesis
      by (simp add: 1 replace_up_to_1hr_def replace_column_int set_col_same)
  next
    case 2
    with cleaned_no_dash [OF assms(1)] show ?thesis by (simp add: replace_dash_fix)
  next
    case 3
    from cleaned_comments [OF assms(1)] obtain c where
      "get_col df (py ''Comments'') = Inr c" "Str (py ''0'') \<notin> set (cells c)" by blast
    then show ?thesis
      by (simp add: 3 comments_null_def replace_column_absent set_col_same)
  next
    case 4
    from cleaned_numeric [OF assms(1) 4(2)] obtain c where
      "get_col df l = Inr c" "int_column c" by blast
    then show ?thesis by (simp add: 4(1) astype_int64_fix)
  qed
qed

subsection \<open>Columns a stage leaves alone\<close>

lemma column_stage_writes:
  assumes "column_stage s = Some k" and "exec s df = Inr df'"
  shows "\<exists>c. df' = set_col df k c"
proof (cases s)
  case SetDayCategorical
  with assms show ?thesis by (auto simp: column_stage_def set_day_categorical_def and_then_Inr)
next
  case ParseDate
  with assms show ?thesis by (auto simp: column_stage_def parse_date_column_def and_then_Inr)
next
  case ReplaceUpTo1hr
  with assms show ?thesis by (auto simp: column_stage_def replace_up_to_1hr_def and_then_Inr)
next
  case (Astype l)
  with assms show ?thesis by (auto simp: column_stage_def astype_int64_def and_then_Inr)
next
  case CommentsNull
  with assms show ?thesis by (auto simp: column_stage_def comments_null_def and_then_Inr)
next
  case ClipTotal
  with assms show ?thesis by (auto simp: column_stage_def clip_total_def and_then_Inr)
qed (use assms(1) in \<open>simp_all add: column_stage_def\<close>)

lemma column_stage_other:
  assumes "column_stage s = Some k" and "k \<noteq> l" and "exec s df = Inr df'"
  shows "get_col df' l = get_col df l"
  using column_stage_writes [OF assms(1,3)] assms(2) by (auto simp: get_col_set_col)

lemma set_col_mem: "(l, c) \<in> set df \<Longrightarrow> l \<noteq> k \<Longrightarrow> (l, c) \<in> set (set_col df k v)"
  by (induction df) auto

lemma column_stage_mem:
  assumes "column_stage s = Some k" and "k \<noteq> l" and "exec s df = Inr df'" and "(l, c) \<in> set df"
  shows "(l, c) \<in> set df'"
  using column_stage_writes [OF assms(1,3)] assms(2,4) by (auto simp: set_col_mem)

lemma run_other_columns:
  assumes "list_all (\<lambda>s. \<exists>k. column_stage s = Some k \<and> k \<noteq> l) ss" and "run ss df = Inr d"
  shows "get_col d l = get_col df l"
  using assms
proof (induction ss arbitrary: df)
  case Nil
  then show ?case by simp
next
  case (Cons s ss)
  from Cons.prems(2) obtain e where e: "exec s df = Inr e" "run ss e = Inr d"
    by (auto simp: and_then_Inr)
  from Cons.prems(1) obtain k where "column_stage s = Some k" "k \<noteq> l" by auto
  from column_stage_other [OF this e(1)] have "get_col e l = get_col df l" .
  with Cons.IH [OF _ e(2)] Cons.prems(1) show ?case by simp
qed

lemma casts_leave_comments:
  "list_all (\<lambda>s. \<exists>k. column_stage s = Some k \<and> k \<noteq> py ''Comments'')
     [Astype (py ''1 to 2 hrs''), Astype (py ''2 to 3 hrs''), Astype (py ''3 to 4 hrs''),
      Astype (py ''4 to 5 hrs''), Astype (py ''5 to 6 hrs''), Astype (py ''6 to <24 hours''),
      Astype (py ''24 hours +''), Astype (py ''Subscribers''), Astype (py ''Total Exc Sub'')]"
  by (simp add: column_stage_def)

lemma comments_column_cleaned:
  assumes "clean df0 = Inr df" and "(l0, c0) \<in> set df0" and "strip l0 = py ''Comments''"
  shows "\<exists>c1. strip_column c0 = Inr c1 \<and>
           get_col df (py ''Comments'') =
             Inr (replace_column [(Str (py ''0''), NaN)]
                    (replace_column [(Str (py ''-''), Num 0)] c1))"
proof -
  let ?casts = "[Astype (py ''1 to 2 hrs''), Astype (py ''2 to 3 hrs''), Astype (py ''3 to 4 hrs''),
      Astype (py ''4 to 5 hrs''), Astype (py ''5 to 6 hrs''), Astype (py ''6 to <24 hours''),
      Astype (py ''24 hours +''), Astype (py ''Subscribers''), Astype (py ''Total Exc Sub'')]"
  have nb: "notebook = [SetDayCategorical, ParseDate] @ [WhitespaceRemover]
      @ [ReplaceUpTo1hr, Astype (py ''Up to 1 hr'')] @ [ReplaceDash] @ ?casts @ [CommentsNull] @ [ClipTotal]"
    by (simp add: stage_lists)
  from assms(1) obtain a b c c' d e where
    a: "run [SetDayCategorical, ParseDate] df0 = Inr a"
    and b0: "run [WhitespaceRemover] a = Inr b"
    and c: "run [ReplaceUpTo1hr, Astype (py ''Up to 1 hr'')] b = Inr c"
    and c': "run [ReplaceDash] c = Inr c'"
    and d0: "run ?casts c' = Inr d"
    and e0: "run [CommentsNull] d = Inr e"
    and f0: "run [ClipTotal] e = Inr df"
    unfolding clean_def nb run_append_Inr by blast
  from b0 have b: "whitespace_remover a = Inr b" by (simp only: run_single exec.simps)
  from c' have "c' = replace_dash c" by (simp only: run_single exec.simps) simp
  with d0 have d: "run ?casts (replace_dash c) = Inr d" by simp
  from e0 have e: "comments_null d = Inr e" by (simp only: run_single exec.simps)
  from f0 have f: "clip_total e = Inr df" by (simp only: run_single exec.simps)
  have l0: "(py ''Day'') \<noteq> l0" "(py ''Date'') \<noteq> l0"
    using assms(3) strip_labels by auto
  from a obtain a1 where a1: "exec SetDayCategorical df0 = Inr a1" "exec ParseDate a1 = Inr a"
    by (auto simp: and_then_Inr)
  have "(l0, c0) \<in> set a1"
    by (rule column_stage_mem [OF _ l0(1) a1(1) assms(2)]) (simp add: column_stage_def)
  have "(l0, c0) \<in> set a"
    by (rule column_stage_mem [OF _ l0(2) a1(2) \<open>(l0, c0) \<in> set a1\<close>])
      (simp add: column_stage_def)
  from whitespace_remover_col [OF b this] assms(3)
  obtain c1 where c1: "strip_column c0 = Inr c1" and 1: "get_col b (py ''Comments'') = Inr c1"
    by auto
  have "get_col c (py ''Comments'') = get_col b (py ''Comments'')"
    by (rule run_other_columns [OF _ c]) (simp add: column_stage_def)
  with 1 have 2: "get_col (replace_dash c) (py ''Comments'') =
      Inr (replace_column [(Str (py ''-''), Num 0)] c1)"
    by (simp add: replace_dash_def get_col_map)
  have "get_col d (py ''Comments'') = get_col (replace_dash c) (py ''Comments'')"
    by (rule run_other_columns [OF casts_leave_comments d])
  with 2 e have "get_col e (py ''Comments'') =
      Inr (replace_column [(Str (py ''0''), NaN)]
             (replace_column [(Str (py ''-''), Num 0)] c1))"
    by (auto simp: comments_null_def and_then_Inr get_col_set_col)
  moreover from f obtain v where "df = set_col e (py ''Total Exc Sub'') v"
    by (auto simp: clip_total_def and_then_Inr)
  ultimately show ?thesis using c1 by (simp add: get_col_set_col)
qed

subsection \<open>The Date column\<close>

lemma to_datetime_cells:
  "map_result to_datetime_cell xs = Inr ys \<Longrightarrow> list_all is_date_cell ys"
proof (induction xs arbitrary: ys)
  case Nil
  then show ?case by simp
next
  case (Cons x xs)
  then show ?case
    by (cases x) (auto simp: is_date_cell_def split: sum.splits option.splits if_splits)
qed

lemma date_cells_no_str: "list_all is_date_cell xs \<Longrightarrow> Str s \<notin> set xs"
  by (auto simp: list_all_iff is_date_cell_def)

lemma between_date_cells:
  "list_all is_date_cell xs \<Longrightarrow>
     map_result (between_cell a b) xs =
       Inr (map (\<lambda>x. \<exists>d. x = Ts d \<and> date_le a d \<and> date_le d b) xs)"
proof (induction xs)
  case Nil
  then show ?case by simp
next
  case (Cons x xs)
  then show ?case by (cases x) (simp_all add: is_date_cell_def)
qed

lemma date_column_parsed:
  assumes "clean df0 = Inr df"
  shows "\<exists>col0 cs. get_col df0 (py ''Date'') = Inr col0 \<and>
           map_result to_datetime_cell (cells col0) = Inr cs \<and>
           get_col df (py ''Date'') = Inr (Column Datetime64 cs)"
proof -
  let ?rest = "[Astype (py ''1 to 2 hrs''), Astype (py ''2 to 3 hrs''), Astype (py ''3 to 4 hrs''),
      Astype (py ''4 to 5 hrs''), Astype (py ''5 to 6 hrs''), Astype (py ''6 to <24 hours''),
      Astype (py ''24 hours +''), Astype (py ''Subscribers''), Astype (py ''Total Exc Sub''),
      CommentsNull, ClipTotal]"
  have nb: "notebook = [SetDayCategorical] @ [ParseDate] @ [WhitespaceRemover]
      @ [ReplaceUpTo1hr, Astype (py ''Up to 1 hr'')] @ [ReplaceDash] @ ?rest"
    by (simp add: stage_lists)
  from assms obtain a1 a b c c' where
    a1: "run [SetDayCategorical] df0 = Inr a1"
    and a0: "run [ParseDate] a1 = Inr a"
    and b0: "run [WhitespaceRemover] a = Inr b"
    and c: "run [ReplaceUpTo1hr, Astype (py ''Up to 1 hr'')] b = Inr c"
    and c': "run [ReplaceDash] c = Inr c'"
    and d0: "run ?rest c' = Inr df"
    unfolding clean_def nb run_append_Inr by blast
  have 0: "get_col a1 (py ''Date'') = get_col df0 (py ''Date'')"
    by (rule run_other_columns [OF _ a1]) (simp add: column_stage_def)
  from a0 have "parse_date_column a1 = Inr a" by (simp only: run_single exec.simps)
  then obtain cs col0 where col0: "get_col a1 (py ''Date'') = Inr col0"
    and cs: "map_result to_datetime_cell (cells col0) = Inr cs"
    and a: "a = set_col a1 (py ''Date'') (Column Datetime64 cs)"
    by (auto simp: parse_date_column_def to_datetime_def and_then_Inr)
  let ?col = "Column Datetime64 cs"
  from cs have dc: "list_all is_date_cell (cells ?col)" by (simp add: to_datetime_cells)
  have "get_col a (py ''Date'') = Inr ?col" by (simp add: a get_col_set_col)
  then have "(py ''Date'', ?col) \<in> set a" by (rule get_col_mem)
  moreover from b0 have "whitespace_remover a = Inr b" by (simp only: run_single exec.simps)
  ultimately obtain c1 where "strip_column ?col = Inr c1" "get_col b (py ''Date'') = Inr c1"
    using whitespace_remover_col strip_labels(2) by metis
  then have 1: "get_col b (py ''Date'') = Inr ?col" by (simp add: strip_column_def)
  have "get_col c (py ''Date'') = get_col b (py ''Date'')"
    by (rule run_other_columns [OF _ c]) (simp add: column_stage_def)
  moreover from c' have "c' = replace_dash c" by (simp only: run_single exec.simps) simp
  moreover have "replace_column [(Str (py ''-''), Num 0)] ?col = ?col"
    by (rule replace_column_absent) (rule date_cells_no_str [OF dc])
  ultimately have 2: "get_col c' (py ''Date'') = Inr ?col"
    using 1 by (simp add: replace_dash_def get_col_map)
  have "get_col df (py ''Date'') = get_col c' (py ''Date'')"
    by (rule run_other_columns [OF _ d0]) (simp add: column_stage_def)
  with 2 have "get_col df (py ''Date'') = Inr ?col" by simp
  moreover from 0 col0 have "get_col df0 (py ''Date'') = Inr col0" by simp
  ultimately show ?thesis using cs by blast
qed

lemma date_column_cleaned:
  assumes "clean df0 = Inr df"
  shows "\<exists>col. get_col df (py ''Date'') = Inr col \<and> list_all is_date_cell (cells col)"
proof -
  from date_column_parsed [OF assms] obtain col0 cs where
    "map_result to_datetime_cell (cells col0) = Inr cs"
    "get_col df (py ''Date'') = Inr (Column Datetime64 cs)" by blast
  then show ?thesis by (simp add: to_datetime_cells)
qed

lemma map_result_nth:
  assumes "map_result f xs = Inr ys"
  shows "length ys = length xs" and "i < length xs \<Longrightarrow> f (xs ! i) = Inr (ys ! i)"
  using map_result_Inr [OF assms] by (auto dest: list_all2_lengthD list_all2_nthD)

lemma map_result_isl: "isl (map_result f xs) \<longleftrightarrow> (\<exists>x \<in> set xs. isl (f x))"
  by (induction xs) (auto split: sum.splits)

lemma keep_rows_zip:
  "map fst (filter snd (zip xs (map P ts))) = map fst (filter (\<lambda>(x, t). P t) (zip xs ts))"
proof (induction xs arbitrary: ts)
  case Nil
  show ?case by simp
next
  case (Cons x xs)
  show ?case by (cases ts) (simp_all add: Cons.IH)
qed

lemma keep_rows_filter: "map fst (filter snd (zip xs (map P xs))) = filter P xs"
  by (induction xs) simp_all

lemma year_bounds:
  "parse_iso (py ''2018-01-01'') = Some (Date 2018 1 1)" "parse_iso (py ''2018-12-31'') = Some (Date 2018 12 31)"
  "parse_iso (py ''2019-01-01'') = Some (Date 2019 1 1)" "parse_iso (py ''2019-12-31'') = Some (Date 2019 12 31)"
  "parse_iso (py ''2020-01-01'') = Some (Date 2020 1 1)" "parse_iso (py ''2020-12-31'') = Some (Date 2020 12 31)"
  "parse_iso (py ''2021-01-01'') = Some (Date 2021 1 1)" "parse_iso (py ''2021-12-31'') = Some (Date 2021 12 31)"
  "parse_iso (py ''2022-01-01'') = Some (Date 2022 1 1)" "parse_iso (py ''2022-12-31'') = Some (Date 2022 12 31)"
  by code_simp+

lemma year_slice_dates:
  assumes "get_col df (py ''Date'') = Inr col" and "list_all is_date_cell (cells col)"
    and "parse_iso lo = Some a" and "parse_iso hi = Some b"
  shows "year_slice lo hi df =
           Inr (loc_rows (map (\<lambda>x. \<exists>d. x = Ts d \<and> date_le a d \<and> date_le d b) (cells col)) df)"
  using assms by (simp add: year_slice_def date_mask_def between_date_cells)

section \<open>The claims\<close>

text \<open>
  Claim C1. The frame the anomaly corrector receives holds integers in
  \<open>Total Exc Sub\<close>; the correction succeeds on it, and afterwards every row holds
  0 where the value was negative and its old value otherwise, so every value is at
  least 0.
\<close>

theorem total_exc_sub_floored:
  assumes "run (schema_normalizer @ value_repairer) df0 = Inr d"
  shows "\<exists>ns df c.
           get_col d (py ''Total Exc Sub'') = Inr (Column Int64 (map Num ns)) \<and>
           clean df0 = Inr df \<and>
           get_col df (py ''Total Exc Sub'') = Inr c \<and>
           c = Column Int64 (map (\<lambda>n. Num (if n < 0 then 0 else n)) ns) \<and>
           (\<forall>x \<in> set (cells c). \<exists>n. x = Num n \<and> 0 \<le> n)"
proof -
  have "(py ''Total Exc Sub'') \<in> set numeric_labels"
    by (simp add: numeric_labels_def)
  from repaired_numeric [OF assms this] obtain c where
    c: "get_col d (py ''Total Exc Sub'') = Inr c" "int_column c" by blast
  then obtain ns where ns: "cells c = map Num ns"
    using is_int64_list by (auto simp: int_column_def)
  with c(2) have col: "c = Column Int64 (map Num ns)"
    by (cases c) (simp add: int_column_def)
  have fl: "map_result floor_zero (map Num ns) = Inr (map (\<lambda>n. Num (if n < 0 then 0 else n)) ns)"
    by (induction ns) simp_all
  let ?df = "set_col d (py ''Total Exc Sub'') (Column Int64 (map (\<lambda>n. Num (if n < 0 then 0 else n)) ns))"
  have "clip_total d = Inr ?df"
    using c(1) fl by (simp add: clip_total_def col)
  then have "clean df0 = Inr ?df"
    using assms by (simp add: clean_split)
  moreover have "get_col ?df (py ''Total Exc Sub'') =
      Inr (Column Int64 (map (\<lambda>n. Num (if n < 0 then 0 else n)) ns))"
    by (simp add: get_col_set_col)
  moreover have "\<forall>x \<in> set (map (\<lambda>n. Num (if n < 0 then 0 else n)) ns). \<exists>n. x = Num n \<and> 0 \<le> n"
    by auto
  ultimately show ?thesis
    using c(1) col by auto
qed

text \<open>The regression row: a raw total of \<open>-1\<close> is 0 after cleaning.\<close>

theorem total_exc_sub_floored_witness:
  "\<exists>df. clean (one_day (Str (py ''1,678'')) (Num (- 1)) (Str (py ''57'')) (Str (py ''0''))) = Inr df \<and>
        get_col df (py ''Total Exc Sub'') = Inr (Column Int64 [Num 0])"
proof -
  let ?ex = "one_day (Str (py ''1,678'')) (Num (- 1)) (Str (py ''57'')) (Str (py ''0''))"
  define d where "d = projr (run (schema_normalizer @ value_repairer) ?ex)"
  have "\<not> isl (run (schema_normalizer @ value_repairer) ?ex)"
    by code_simp
  then have d: "run (schema_normalizer @ value_repairer) ?ex = Inr d"
    by (simp add: d_def)
  have t: "get_col d (py ''Total Exc Sub'') = Inr (Column Int64 [Num (- 1)])"
    unfolding d_def by code_simp
  from total_exc_sub_floored [OF d] obtain ns df where
    "get_col d (py ''Total Exc Sub'') = Inr (Column Int64 (map Num ns))"
    and c: "clean ?ex = Inr df"
    and r: "get_col df (py ''Total Exc Sub'') =
      Inr (Column Int64 (map (\<lambda>n. Num (if n < 0 then 0 else n)) ns))"
    by blast
  with t have "map Num ns = [Num (- 1)]" by simp
  then have "ns = [- 1]" by (cases ns) auto
  with c r show ?thesis by simp
qed

text \<open>
  Claim C2, as amended. The comments statement rewrites exactly the cells of
  \<open>Comments\<close> that are the string \<open>0\<close> to the missing value and keeps every other
  cell of the column. Over the whole pipeline a comment of a text column is first
  stripped of the whitespace around it; what is then \<open>-\<close> ends as the integer 0 (the
  replacement over the entire frame reaches \<open>Comments\<close> too), what is then \<open>0\<close> ends as
  missing, and any other text is kept as stripped; a cell that is not text ends as
  missing. In a column that is not of dtype object nothing is stripped.
\<close>

theorem comments_after_cleaning:
  "(\<forall>a col. get_col a (py ''Comments'') = Inr col \<longrightarrow>
      (\<exists>col'. comments_null a = Inr (set_col a (py ''Comments'') col') \<and>
          cells col' = map (\<lambda>x. if x = Str (py ''0'') then NaN else x) (cells col)))
   \<and> (\<forall>df l0 c0. clean df0 = Inr df \<longrightarrow> (l0, c0) \<in> set df0 \<longrightarrow> strip l0 = py ''Comments'' \<longrightarrow>
        (\<exists>c. get_col df (py ''Comments'') = Inr c \<and>
           cells c =
             map (\<lambda>x. if dtype c0 = Object
                        then (case x of
                                Str s \<Rightarrow> if strip s = py ''-'' then Num 0
                                         else if strip s = py ''0'' then NaN
                                         else Str (strip s)
                              | _ \<Rightarrow> NaN)
                        else if x = Str (py ''-'') then Num 0
                        else if x = Str (py ''0'') then NaN
                        else x)
                 (cells c0)))"
proof -
  have 1: "\<exists>col'. comments_null a = Inr (set_col a (py ''Comments'') col') \<and>
          cells col' = map (\<lambda>x. if x = Str (py ''0'') then NaN else x) (cells col)"
    if "get_col a (py ''Comments'') = Inr col" for a col
  proof -
    let ?c = "replace_column [(Str (py ''0''), NaN)] col"
    have "comments_null a = Inr (set_col a (py ''Comments'') ?c)"
      using that by (simp add: comments_null_def)
    moreover have "cells ?c = map (\<lambda>x. if x = Str (py ''0'') then NaN else x) (cells col)"
      by (simp add: replace_column_def replace_cell_zero [abs_def])
    ultimately show ?thesis by blast
  qed
  have 2: "\<exists>c. get_col df (py ''Comments'') = Inr c \<and>
           cells c =
             map (\<lambda>x. if dtype c0 = Object
                        then (case x of
                                Str s \<Rightarrow> if strip s = py ''-'' then Num 0
                                         else if strip s = py ''0'' then NaN
                                         else Str (strip s)
                              | _ \<Rightarrow> NaN)
                        else if x = Str (py ''-'') then Num 0
                        else if x = Str (py ''0'') then NaN
                        else x)
                 (cells c0)"
    if h: "clean df0 = Inr df" "(l0, c0) \<in> set df0" "strip l0 = py ''Comments''" for df l0 c0
  proof (cases "dtype c0 = Object")
    case True
    have "replace_cell [(Str (py ''0''), NaN)] (replace_cell [(Str (py ''-''), Num 0)] (str_strip_cell x)) =
        (case x of
           Str s \<Rightarrow> if strip s = py ''-'' then Num 0 else if strip s = py ''0'' then NaN else Str (strip s)
         | _ \<Rightarrow> NaN)" for x
      by (cases x) (simp_all add: replace_cell_zero replace_cell_dash)
    moreover from comments_column_cleaned [OF h] obtain c1 where
      c1: "strip_column c0 = Inr c1"
      and g: "get_col df (py ''Comments'') =
        Inr (replace_column [(Str (py ''0''), NaN)] (replace_column [(Str (py ''-''), Num 0)] c1))"
      by blast
    moreover from c1 True have "cells c1 = map str_strip_cell (cells c0)"
      by (auto simp: strip_column_def str_strip_def and_then_Inr split: if_splits)
    ultimately show ?thesis
      using True by (simp add: replace_column_def)
  next
    case False
    have "replace_cell [(Str (py ''0''), NaN)] (replace_cell [(Str (py ''-''), Num 0)] x) =
        (if x = Str (py ''-'') then Num 0 else if x = Str (py ''0'') then NaN else x)" for x
      by (simp add: replace_cell_zero replace_cell_dash)
    moreover from comments_column_cleaned [OF h] obtain c1 where
      c1: "strip_column c0 = Inr c1"
      and g: "get_col df (py ''Comments'') =
        Inr (replace_column [(Str (py ''0''), NaN)] (replace_column [(Str (py ''-''), Num 0)] c1))"
      by blast
    moreover from c1 False have "c1 = c0"
      by (simp add: strip_column_def)
    ultimately show ?thesis
      using False by (simp add: replace_column_def)
  qed
  from 1 2 show ?thesis by blast
qed

text \<open>
  A comment with blanks around it is kept, stripped; a comment \<open>0\<close> followed by a
  no-break space ends as missing.
\<close>

theorem comments_after_cleaning_witness:
  "(\<exists>c. and_then (clean (one_day (Str (py ''12'')) (Num 5) (Str (py ''57'')) (Str (py '' Bonfire night ''))))
          (\<lambda>df. get_col df (py ''Comments'')) = Inr c \<and>
       cells c = [Str (py ''Bonfire night'')]) \<and>
   (\<exists>c. and_then (clean (one_day (Str (py ''12'')) (Num 5) (Str (py ''57'')) (Str (py ''0'' @ [0xA0]))))
          (\<lambda>df. get_col df (py ''Comments'')) = Inr c \<and>
       cells c = [NaN])"
proof -
  have 1: "\<exists>c. and_then (clean (one_day (Str (py ''12'')) (Num 5) (Str (py ''57'')) (Str s)))
          (\<lambda>df. get_col df (py ''Comments'')) = Inr c \<and> cells c = [r]"
    if ok: "\<not> isl (clean (one_day (Str (py ''12'')) (Num 5) (Str (py ''57'')) (Str s)))"
      and r: "(if strip s = py ''-'' then Num 0 else if strip s = py ''0'' then NaN
               else Str (strip s)) = r" for s r
  proof -
    let ?ex = "one_day (Str (py ''12'')) (Num 5) (Str (py ''57'')) (Str s)"
    define df where "df = projr (clean ?ex)"
    from ok have df: "clean ?ex = Inr df" by (simp add: df_def)
    have m: "(py ''Comments'', Column Object [Str s]) \<in> set ?ex"
      by (simp add: one_day_def)
    from comments_after_cleaning [of ?ex] df m strip_labels(3)
    obtain c where "get_col df (py ''Comments'') = Inr c"
      and "cells c =
        map (\<lambda>x. if dtype (Column Object [Str s]) = Object
                   then (case x of
                           Str s \<Rightarrow> if strip s = py ''-'' then Num 0
                                    else if strip s = py ''0'' then NaN
                                    else Str (strip s)
                         | _ \<Rightarrow> NaN)
                   else if x = Str (py ''-'') then Num 0
                   else if x = Str (py ''0'') then NaN
                   else x)
            (cells (Column Object [Str s]))"
      by blast
    with df r show ?thesis by simp
  qed
  have "\<not> isl (clean (one_day (Str (py ''12'')) (Num 5) (Str (py ''57'')) (Str (py '' Bonfire night ''))))"
    by code_simp
  moreover have "strip (py '' Bonfire night '') = py ''Bonfire night''"
    by code_simp
  ultimately have a: "\<exists>c. and_then (clean (one_day (Str (py ''12'')) (Num 5) (Str (py ''57'')) (Str (py '' Bonfire night ''))))
          (\<lambda>df. get_col df (py ''Comments'')) = Inr c \<and> cells c = [Str (py ''Bonfire night'')]"
    by (intro 1) simp_all
  have "\<not> isl (clean (one_day (Str (py ''12'')) (Num 5) (Str (py ''57'')) (Str (py ''0'' @ [0xA0]))))"
    by code_simp
  moreover have "strip (py ''0'' @ [0xA0]) = py ''0''"
    by code_simp
  ultimately have b: "\<exists>c. and_then (clean (one_day (Str (py ''12'')) (Num 5) (Str (py ''57'')) (Str (py ''0'' @ [0xA0]))))
          (\<lambda>df. get_col df (py ''Comments'')) = Inr c \<and> cells c = [NaN]"
    by (intro 1) simp_all
  from a b show ?thesis by (rule conjI)
qed

text \<open>
  The claim as stated fails at a comment \<open>-\<close>: it is not the string \<open>0\<close>, yet it does
  not pass through unchanged, and the cleaned cell holds the integer 0.
\<close>

theorem comment_dash_counterexample:
  "and_then (clean (one_day (Str (py ''12'')) (Num 5) (Str (py ''57'')) (Str (py ''-''))))
     (\<lambda>df. and_then (get_col df (py ''Comments'')) (\<lambda>c. Inr (cells c))) = Inr [Num 0]"
  by code_simp

text \<open>
  Claim C3, as amended. Whenever the pipeline accepts its input, each column it casts
  (the eight duration buckets, \<open>Subscribers\<close> and \<open>Total Exc Sub\<close>) is of dtype
  int64 and holds a 64-bit integer in every row, and every value of \<open>Total Exc Sub\<close>
  is at least 0. No statement floors another column, so nothing is said about the sign
  of the others.
\<close>

theorem numeric_columns_integer:
  assumes "clean df0 = Inr df"
  shows "(\<forall>l \<in> set numeric_labels. \<exists>c. get_col df l = Inr c \<and> dtype c = Int64 \<and>
            (\<forall>x \<in> set (cells c). \<exists>n. x = Num n \<and> in_int64 n))
       \<and> (\<exists>c. get_col df (py ''Total Exc Sub'') = Inr c \<and>
            (\<forall>x \<in> set (cells c). \<exists>n. x = Num n \<and> 0 \<le> n))"
proof -
  from assms obtain d where d: "run (schema_normalizer @ value_repairer) df0 = Inr d"
    and cl: "clip_total d = Inr df"
    by (auto simp: clean_split and_then_Inr)
  have "\<exists>c. get_col df l = Inr c \<and> dtype c = Int64 \<and>
            (\<forall>x \<in> set (cells c). \<exists>n. x = Num n \<and> in_int64 n)"
    if l: "l \<in> set numeric_labels" for l
  proof -
    from repaired_numeric [OF d l] obtain c where "get_col d l = Inr c" "int_column c" by blast
    from clip_total_numeric [OF cl this] obtain c' where
      c': "get_col df l = Inr c'" "int_column c'" by blast
    have "\<exists>n. x = Num n \<and> in_int64 n" if "x \<in> set (cells c')" for x
      using that c'(2) by (auto simp: int_column_def list_all_iff intro: is_int64_Num)
    with c' show ?thesis by (auto simp: int_column_def)
  qed
  moreover
  have "(py ''Total Exc Sub'') \<in> set numeric_labels"
    by (simp add: numeric_labels_def)
  from repaired_numeric [OF d this] obtain c where
    "get_col d (py ''Total Exc Sub'') = Inr c" "int_column c" by blast
  from clip_total_total [OF cl this] obtain c' where
    c': "get_col df (py ''Total Exc Sub'') = Inr c'" "list_all non_negative (cells c')" by blast
  have "\<exists>n. x = Num n \<and> 0 \<le> n" if "x \<in> set (cells c')" for x
    using that c'(2) by (auto simp: list_all_iff intro: non_negative_Num)
  with c'(1) have "\<exists>c. get_col df (py ''Total Exc Sub'') = Inr c \<and>
            (\<forall>x \<in> set (cells c). \<exists>n. x = Num n \<and> 0 \<le> n)"
    by blast
  ultimately show ?thesis by blast
qed

theorem numeric_columns_integer_witness:
  "\<exists>c. and_then (clean (one_day (Str (py ''1,678'')) (Num (- 1)) (Str (py ''-'')) (Str (py ''0''))))
          (\<lambda>df. get_col df (py ''Subscribers'')) = Inr c \<and> dtype c = Int64"
proof -
  let ?ex = "one_day (Str (py ''1,678'')) (Num (- 1)) (Str (py ''-'')) (Str (py ''0''))"
  define df where "df = projr (clean ?ex)"
  have "\<not> isl (clean ?ex)" by code_simp
  then have df: "clean ?ex = Inr df" by (simp add: df_def)
  have "(py ''Subscribers'') \<in> set numeric_labels" by (simp add: numeric_labels_def)
  with numeric_columns_integer [OF df] obtain c where
    "get_col df (py ''Subscribers'') = Inr c" "dtype c = Int64" by blast
  with df show ?thesis by simp
qed

text \<open>
  The claim as stated fails at a subscriber count written \<open>-3\<close>: the pipeline accepts
  the frame, and the cleaned cell is the negative integer.
\<close>

theorem negative_subscribers_counterexample:
  "and_then (clean (one_day (Str (py ''12'')) (Num 5) (Str (py ''-3'')) NaN))
     (\<lambda>df. get_col df (py ''Subscribers'')) = Inr (Column Int64 [Num (- 3)])"
  by code_simp

text \<open>
  Claim C4, as amended. The replacement of \<open>-\<close> by 0 over the frame rewrites every
  column alike. It stands before the cast of nine of the ten numeric columns; the
  tenth, \<open>Up to 1 hr\<close>, is cast earlier, directly after the replacement on that column
  alone. Either way, no column is cast while a cell of it is still \<open>-\<close>.
\<close>

theorem dash_replaced_before_cast:
  "map (\<lambda>(l, c). (l, cells c)) (replace_dash df) =
     map (\<lambda>(l, c). (l, map (\<lambda>x. if x = Str (py ''-'') then Num 0 else x) (cells c))) df
   \<and> (\<forall>i l. i < length notebook \<longrightarrow> notebook ! i = Astype l \<longrightarrow> l \<noteq> py ''Up to 1 hr'' \<longrightarrow>
         ReplaceDash \<in> set (take i notebook))
   \<and> (\<forall>i. i < length notebook \<longrightarrow> notebook ! i = Astype (py ''Up to 1 hr'') \<longrightarrow>
         take i notebook = schema_normalizer @ [ReplaceUpTo1hr])
   \<and> (\<forall>i l d c. i < length notebook \<longrightarrow> notebook ! i = Astype l \<longrightarrow>
         run (take i notebook) df0 = Inr d \<longrightarrow> get_col d l = Inr c \<longrightarrow>
         Str (py ''-'') \<notin> set (cells c))"
proof -
  have 1: "map (\<lambda>(l, c). (l, cells c)) (replace_dash df) =
     map (\<lambda>(l, c). (l, map (\<lambda>x. if x = Str (py ''-'') then Num 0 else x) (cells c))) df"
    by (simp add: replace_dash_cells)
  have 2: "ReplaceDash \<in> set (take i notebook)"
    if "i < length notebook" "notebook ! i = Astype l" "l \<noteq> py ''Up to 1 hr''" for i l
  proof -
    from cast_positions [OF that(1,2)] that(3) have "6 \<le> i" by simp
    from take_notebook [OF this] show ?thesis by auto
  qed
  have 3: "take i notebook = schema_normalizer @ [ReplaceUpTo1hr]"
    if "i < length notebook" "notebook ! i = Astype (py ''Up to 1 hr'')" for i
  proof -
    from cast_positions [OF that] have "i = 4" by simp
    then show ?thesis by (simp add: stage_lists)
  qed
  have 4: "Str (py ''-'') \<notin> set (cells c)"
    if i: "i < length notebook" "notebook ! i = Astype l"
      and d: "run (take i notebook) df0 = Inr d" and c: "get_col d l = Inr c" for i l d c
  proof (cases "l = py ''Up to 1 hr''")
    case True
    with 3 i d have "run (schema_normalizer @ [ReplaceUpTo1hr]) df0 = Inr d" by simp
    then obtain a col where "get_col a (py ''Up to 1 hr'') = Inr col"
      and "d = set_col a (py ''Up to 1 hr'')
                 (replace_column [(Str (py ''-''), Num 0), (Str (py ''1,678''), Num 167)] col)"
      by (auto simp: run_append_Inr and_then_Inr replace_up_to_1hr_def)
    with c True have "c = replace_column [(Str (py ''-''), Num 0), (Str (py ''1,678''), Num 167)] col"
      by (simp add: get_col_set_col)
    then show ?thesis
      by (auto simp: replace_column_def replace_cell_up)
  next
    case False
    with cast_positions [OF i] have "6 \<le> i" by simp
    from take_notebook [OF this] obtain post where
      t: "take i notebook =
            [SetDayCategorical, ParseDate, WhitespaceRemover, ReplaceUpTo1hr, Astype (py ''Up to 1 hr'')]
            @ ReplaceDash # post"
      and p: "list_all later_stage post" by blast
    from d have "run ([SetDayCategorical, ParseDate, WhitespaceRemover, ReplaceUpTo1hr,
        Astype (py ''Up to 1 hr'')] @ ReplaceDash # post) df0 = Inr d"
      by (simp only: t)
    then have "no_dash d" using p by (rule run_after_replace_dash)
    with c show ?thesis by (auto dest: get_col_mem no_dash_col)
  qed
  from 1 2 3 4 show ?thesis by blast
qed

theorem dash_replaced_before_cast_witness:
  "\<exists>d c. run (take 6 notebook) (one_day (Str (py ''-'')) (Num 5) (Str (py ''57'')) NaN) = Inr d \<and>
          get_col d (py ''1 to 2 hrs'') = Inr c \<and> Str (py ''-'') \<notin> set (cells c)"
proof -
  let ?ex = "one_day (Str (py ''-'')) (Num 5) (Str (py ''57'')) NaN"
  define d where "d = projr (run (take 6 notebook) ?ex)"
  define c where "c = projr (get_col d (py ''1 to 2 hrs''))"
  have "\<not> isl (run (take 6 notebook) ?ex)" by code_simp
  then have d: "run (take 6 notebook) ?ex = Inr d" by (simp add: d_def)
  have "\<not> isl (get_col d (py ''1 to 2 hrs''))" unfolding d_def by code_simp
  then have c: "get_col d (py ''1 to 2 hrs'') = Inr c" by (simp add: c_def)
  have i: "6 < length notebook" "notebook ! 6 = Astype (py ''1 to 2 hrs'')"
    by (simp_all add: stage_lists)
  from dash_replaced_before_cast [of _ ?ex] i d c have "Str (py ''-'') \<notin> set (cells c)"
    by blast
  with d c show ?thesis by blast
qed

text \<open>
  The claim as stated fails at the first cast: stage 4 of the notebook casts
  \<open>Up to 1 hr\<close>, the replacement over the frame is stage 5, and the frame that reaches
  the replacement already holds integers in \<open>Up to 1 hr\<close> while \<open>1 to 2 hrs\<close> still
  holds \<open>-\<close>.
\<close>

theorem cast_before_global_replacement_counterexample:
  "notebook ! 4 = Astype (py ''Up to 1 hr'') \<and> notebook ! 5 = ReplaceDash \<and>
   ReplaceDash \<notin> set (take 4 notebook) \<and>
   and_then (run (take 5 notebook) (one_day (Str (py ''-'')) (Num 5) (Str (py ''57'')) NaN))
     (\<lambda>d. get_col d (py ''Up to 1 hr'')) = Inr (Column Int64 [Num 0]) \<and>
   and_then (run (take 5 notebook) (one_day (Str (py ''-'')) (Num 5) (Str (py ''57'')) NaN))
     (\<lambda>d. get_col d (py ''1 to 2 hrs'')) = Inr (Column Object [Str (py ''-'')])"
  by code_simp

text \<open>
  Claim C5. Let a cell of the \<open>Date\<close> column be two digits, a slash, two digits, a
  slash and four digits. It is read day first: the first field is the day and the second
  the month. The cell is refused only when these fields name no day of the calendar, or
  one that a Timestamp cannot hold; the statement that parses the column then raises,
  and so does the pipeline. Whenever the statement returns, the \<open>Date\<close> column is of
  dtype datetime64 and holds that day in the row of the cell, as does the \<open>Date\<close> column
  of the cleaned frame. The statement returns exactly when every cell of the column can
  be parsed.
\<close>

theorem date_parsed_day_first:
  assumes "list_all is_digit [a, b, c, d, e, f, g, h]"
    and "get_col df0 (py ''Date'') = Inr col"
    and "i < length (cells col)"
    and "cells col ! i = Str ([a, b] @ py ''/'' @ [c, d] @ py ''/'' @ [e, f, g, h])"
  shows "let dt = Date (1000 * digit_val e + 100 * digit_val f + 10 * digit_val g + digit_val h)
                       (10 * digit_val c + digit_val d)
                       (10 * digit_val a + digit_val b)
         in to_datetime_cell (cells col ! i) =
              (if \<not> valid_date dt then Inl ValueError
               else if \<not> in_bounds dt then Inl OutOfBoundsDatetime
               else Inr (Ts dt))
          \<and> (\<forall>df1. parse_date_column df0 = Inr df1 \<longrightarrow>
                (\<exists>c1. get_col df1 (py ''Date'') = Inr c1 \<and> dtype c1 = Datetime64 \<and>
                   length (cells c1) = length (cells col) \<and> cells c1 ! i = Ts dt))
          \<and> (\<forall>df. clean df0 = Inr df \<longrightarrow>
                (\<exists>c1. get_col df (py ''Date'') = Inr c1 \<and> dtype c1 = Datetime64 \<and>
                   length (cells c1) = length (cells col) \<and> cells c1 ! i = Ts dt))
          \<and> (\<not> (valid_date dt \<and> in_bounds dt) \<longrightarrow>
                isl (parse_date_column df0) \<and> isl (clean df0))
          \<and> (isl (parse_date_column df0) \<longleftrightarrow> (\<exists>x \<in> set (cells col). isl (to_datetime_cell x)))"
proof -
  define dt where
    "dt = Date (1000 * digit_val e + 100 * digit_val f + 10 * digit_val g + digit_val h)
               (10 * digit_val c + digit_val d)
               (10 * digit_val a + digit_val b)"
  let ?s = "[a, b, 47, c, d, 47, e, f, g, h]"
  have s: "cells col ! i = Str ?s"
    using assms(4) by (simp add: py_def)
  have p: "strptime_dmy ?s = (if valid_date dt then Some dt else None)"
    using strptime_day_first [OF assms(1)] by (simp add: dt_def Let_def)
  have 1: "to_datetime_cell (cells col ! i) =
      (if \<not> valid_date dt then Inl ValueError
       else if \<not> in_bounds dt then Inl OutOfBoundsDatetime
       else Inr (Ts dt))"
    using dated_not_missing [of a b c d e f g h] by (simp add: s p)
  have cell: "y = Ts dt" if "to_datetime_cell (cells col ! i) = Inr y" for y
    using that by (simp add: 1 split: if_splits)
  have 2: "\<exists>c1. get_col df1 (py ''Date'') = Inr c1 \<and> dtype c1 = Datetime64 \<and>
        length (cells c1) = length (cells col) \<and> cells c1 ! i = Ts dt"
    if "parse_date_column df0 = Inr df1" for df1
  proof -
    from that assms(2) obtain cs where cs: "map_result to_datetime_cell (cells col) = Inr cs"
      and df1: "df1 = set_col df0 (py ''Date'') (Column Datetime64 cs)"
      by (auto simp: parse_date_column_def to_datetime_def and_then_Inr)
    from map_result_nth [OF cs] assms(3) have "length cs = length (cells col)" "cs ! i = Ts dt"
      by (auto dest: cell)
    then show ?thesis by (simp add: df1 get_col_set_col)
  qed
  have 3: "\<exists>c1. get_col df (py ''Date'') = Inr c1 \<and> dtype c1 = Datetime64 \<and>
        length (cells c1) = length (cells col) \<and> cells c1 ! i = Ts dt"
    if "clean df0 = Inr df" for df
  proof -
    from date_column_parsed [OF that] assms(2) obtain cs where
      cs: "map_result to_datetime_cell (cells col) = Inr cs"
      and df: "get_col df (py ''Date'') = Inr (Column Datetime64 cs)"
      by auto
    from map_result_nth [OF cs] assms(3) have "length cs = length (cells col)" "cs ! i = Ts dt"
      by (auto dest: cell)
    then show ?thesis by (simp add: df)
  qed
  have 5: "isl (parse_date_column df0) \<longleftrightarrow> (\<exists>x \<in> set (cells col). isl (to_datetime_cell x))"
  proof -
    have "isl (parse_date_column df0) \<longleftrightarrow> isl (map_result to_datetime_cell (cells col))"
      using assms(2)
      by (cases "map_result to_datetime_cell (cells col)")
        (simp_all add: parse_date_column_def to_datetime_def)
    then show ?thesis by (simp add: map_result_isl)
  qed
  have 4: "isl (parse_date_column df0) \<and> isl (clean df0)"
    if bad: "\<not> (valid_date dt \<and> in_bounds dt)"
  proof -
    from bad have "isl (to_datetime_cell (cells col ! i))" by (auto simp: 1)
    with assms(3) have "\<exists>x \<in> set (cells col). isl (to_datetime_cell x)"
      by (auto intro: nth_mem)
    with 5 have "isl (parse_date_column df0)" by simp
    moreover have "isl (clean df0)"
    proof (cases "clean df0")
      case (Inl err)
      then show ?thesis by simp
    next
      case (Inr df)
      from 3 [OF this] obtain c1 where "cells c1 ! i = Ts dt"
        and "get_col df (py ''Date'') = Inr c1" by blast
      from date_column_parsed [OF Inr] assms(2) obtain cs where
        "map_result to_datetime_cell (cells col) = Inr cs" by auto
      from map_result_nth(2) [OF this assms(3)] bad show ?thesis by (simp add: 1 split: if_splits)
    qed
    ultimately show ?thesis by simp
  qed
  from 1 2 3 4 5 show ?thesis
    unfolding Let_def dt_def [symmetric] by blast
qed

text \<open>
  The two dates of the specification, through the whole pipeline: 31/12/2022 is the last
  day of 2022, and 01/04/2015 is the first of April, not the fourth of January.
\<close>

theorem date_parsed_day_first_witness:
  "and_then (clean (one_day (Str (py ''12'')) (Num 5) (Str (py ''57'')) NaN))
     (\<lambda>df. get_col df (py ''Date'')) = Inr (Column Datetime64 [Ts (Date 2022 12 31)]) \<and>
   and_then (clean (set_col (one_day (Str (py ''12'')) (Num 5) (Str (py ''57'')) NaN)
                      (py ''Date'') (Column Object [Str (py ''01/04/2015'')])))
     (\<lambda>df. get_col df (py ''Date'')) = Inr (Column Datetime64 [Ts (Date 2015 4 1)]) \<and>
   Ts (Date 2015 4 1) \<noteq> Ts (Date 2015 1 4)"
proof -
  let ?x = "one_day (Str (py ''12'')) (Num 5) (Str (py ''57'')) NaN"
  let ?y = "set_col ?x (py ''Date'') (Column Object [Str (py ''01/04/2015'')])"
  have dv: "digit_val 48 = 0" "digit_val 49 = 1" "digit_val 50 = 2" "digit_val 51 = 3"
    "digit_val 52 = 4" "digit_val 53 = 5"
    by (simp_all add: digit_val_def)
  have ok: "valid_date (Date 2022 12 31)" "in_bounds (Date 2022 12 31)"
    "valid_date (Date 2015 4 1)" "in_bounds (Date 2015 4 1)"
    by (simp_all add: valid_date_def days_in_month_def leap_year_def in_bounds_def date_le_def)
  have col: "Column Datetime64 [t] = c1"
    if "dtype c1 = Datetime64" "length (cells c1) = 1" "cells c1 ! 0 = t" for c1 t
    using that by (cases c1; cases "cells c1") simp_all
  define dx where "dx = projr (clean ?x)"
  have "\<not> isl (clean ?x)" by code_simp
  then have dx: "clean ?x = Inr dx" by (simp add: dx_def)
  have gx: "get_col ?x (py ''Date'') = Inr (Column Object [Str (py ''31/12/2022'')])"
    by (simp add: one_day_def get_col_def)
  have "list_all is_digit [51, 49, 49, 50, 50, 48, 50, 50]"
    by (simp add: is_digit_def)
  from date_parsed_day_first [OF this gx, of 0] dx
  obtain c1 where "get_col dx (py ''Date'') = Inr c1" "dtype c1 = Datetime64"
    "length (cells c1) = 1" "cells c1 ! 0 = Ts (Date 2022 12 31)"
    by (auto simp: py_def Let_def dv)
  with col have 1: "get_col dx (py ''Date'') = Inr (Column Datetime64 [Ts (Date 2022 12 31)])"
    by metis
  define dy where "dy = projr (clean ?y)"
  have "\<not> isl (clean ?y)" by code_simp
  then have dy: "clean ?y = Inr dy" by (simp add: dy_def)
  have gy: "get_col ?y (py ''Date'') = Inr (Column Object [Str (py ''01/04/2015'')])"
    by (simp add: get_col_set_col)
  have "list_all is_digit [48, 49, 48, 52, 50, 48, 49, 53]"
    by (simp add: is_digit_def)
  from date_parsed_day_first [OF this gy, of 0] dy
  obtain c2 where "get_col dy (py ''Date'') = Inr c2" "dtype c2 = Datetime64"
    "length (cells c2) = 1" "cells c2 ! 0 = Ts (Date 2015 4 1)"
    by (auto simp: py_def Let_def dv)
  with col have 2: "get_col dy (py ''Date'') = Inr (Column Datetime64 [Ts (Date 2015 4 1)])"
    by metis
  from 1 2 dx dy show ?thesis by simp
qed

text \<open>
  Claim C6. The replacement over the frame turns a cell into 0 exactly when the whole
  cell is \<open>-\<close>, in every column; a string that merely contains a dash is kept. The
  replacement on \<open>Up to 1 hr\<close> turns \<open>-\<close> into 0 and \<open>1,678\<close> into 167, keeps every
  other cell of that column and touches no other column. No statement rewrites another
  number written with a comma: such a cell is kept by both replacements, and a cast
  that meets it raises ValueError.
\<close>

theorem replacement_law:
  "map (\<lambda>(l, c). (l, cells c)) (replace_dash df) =
     map (\<lambda>(l, c). (l, map (\<lambda>x. if x = Str (py ''-'') then Num 0 else x) (cells c))) df
   \<and> (\<forall>col. get_col df (py ''Up to 1 hr'') = Inr col \<longrightarrow>
        (\<exists>col'. replace_up_to_1hr df = Inr (set_col df (py ''Up to 1 hr'') col') \<and>
           cells col' =
             map (\<lambda>x. if x = Str (py ''-'') then Num 0
                        else if x = Str (py ''1,678'') then Num 167 else x) (cells col)))
   \<and> (\<forall>df' l. replace_up_to_1hr df = Inr df' \<longrightarrow> l \<noteq> py ''Up to 1 hr'' \<longrightarrow>
        get_col df' l = get_col df l)
   \<and> (\<forall>s. s \<noteq> py ''-'' \<longrightarrow> replace_cell [(Str (py ''-''), Num 0)] (Str s) = Str s)
   \<and> (\<forall>s. s \<noteq> py ''-'' \<longrightarrow> s \<noteq> py ''1,678'' \<longrightarrow>
        replace_cell [(Str (py ''-''), Num 0), (Str (py ''1,678''), Num 167)] (Str s) = Str s)
   \<and> (\<forall>s. of_char CHR '','' \<in> set s \<longrightarrow> astype_int64_cell (Str s) = Inl ValueError)"
proof -
  have 1: "map (\<lambda>(l, c). (l, cells c)) (replace_dash df) =
     map (\<lambda>(l, c). (l, map (\<lambda>x. if x = Str (py ''-'') then Num 0 else x) (cells c))) df"
    by (simp add: replace_dash_cells)
  have 2: "\<forall>col. get_col df (py ''Up to 1 hr'') = Inr col \<longrightarrow>
        (\<exists>col'. replace_up_to_1hr df = Inr (set_col df (py ''Up to 1 hr'') col') \<and>
           cells col' =
             map (\<lambda>x. if x = Str (py ''-'') then Num 0
                        else if x = Str (py ''1,678'') then Num 167 else x) (cells col))"
  proof (intro allI impI)
    fix col
    assume that: "get_col df (py ''Up to 1 hr'') = Inr col"
    let ?c = "replace_column [(Str (py ''-''), Num 0), (Str (py ''1,678''), Num 167)] col"
    have "replace_up_to_1hr df = Inr (set_col df (py ''Up to 1 hr'') ?c)"
      using that by (simp add: replace_up_to_1hr_def)
    moreover have "cells ?c =
        map (\<lambda>x. if x = Str (py ''-'') then Num 0
                   else if x = Str (py ''1,678'') then Num 167 else x) (cells col)"
      by (simp add: replace_column_def replace_cell_up [abs_def])
    ultimately show "\<exists>col'. replace_up_to_1hr df = Inr (set_col df (py ''Up to 1 hr'') col') \<and>
           cells col' =
             map (\<lambda>x. if x = Str (py ''-'') then Num 0
                        else if x = Str (py ''1,678'') then Num 167 else x) (cells col)"
      by (intro exI conjI)
  qed
  have 3: "\<forall>df' l. replace_up_to_1hr df = Inr df' \<longrightarrow> l \<noteq> py ''Up to 1 hr'' \<longrightarrow>
        get_col df' l = get_col df l"
    by (auto simp: replace_up_to_1hr_def and_then_Inr get_col_set_col)
  have 4: "\<forall>s. s \<noteq> py ''-'' \<longrightarrow> replace_cell [(Str (py ''-''), Num 0)] (Str s) = Str s"
    by (simp add: replace_cell_dash)
  have 5: "\<forall>s. s \<noteq> py ''-'' \<longrightarrow> s \<noteq> py ''1,678'' \<longrightarrow>
        replace_cell [(Str (py ''-''), Num 0), (Str (py ''1,678''), Num 167)] (Str s) = Str s"
    by (simp add: replace_cell_up)
  have 6: "\<forall>s. of_char CHR '','' \<in> set s \<longrightarrow> astype_int64_cell (Str s) = Inl ValueError"
    by (simp add: py_int_comma)
  from 1 2 3 4 5 6 show ?thesis by (intro conjI)
qed

theorem replacement_law_witness:
  "(\<exists>col'. replace_up_to_1hr
       [(py ''Up to 1 hr'', Column Object [Str (py ''1,678''), Str (py ''-''), Str (py ''2,345''), Str (py ''-5'')]),
        (py ''1 to 2 hrs'', Column Object [Str (py ''1,678'')])]
      = Inr [(py ''Up to 1 hr'', col'), (py ''1 to 2 hrs'', Column Object [Str (py ''1,678'')])] \<and>
      cells col' = [Num 167, Num 0, Str (py ''2,345''), Str (py ''-5'')]) \<and>
   map (\<lambda>(l, c). (l, cells c))
     (replace_dash [(py ''1 to 2 hrs'', Column Object [Str (py ''1,678''), Str (py ''-''), Str (py ''a-b'')])])
     = [(py ''1 to 2 hrs'', [Str (py ''1,678''), Num 0, Str (py ''a-b'')])] \<and>
   astype_int64_cell (Str (py ''2,345'')) = Inl ValueError"
proof -
  let ?df = "[(py ''Up to 1 hr'', Column Object [Str (py ''1,678''), Str (py ''-''), Str (py ''2,345''), Str (py ''-5'')]),
              (py ''1 to 2 hrs'', Column Object [Str (py ''1,678'')])]"
  have g: "get_col ?df (py ''Up to 1 hr'') =
      Inr (Column Object [Str (py ''1,678''), Str (py ''-''), Str (py ''2,345''), Str (py ''-5'')])"
    by (simp add: get_col_def)
  have "\<forall>col. get_col ?df (py ''Up to 1 hr'') = Inr col \<longrightarrow>
        (\<exists>col'. replace_up_to_1hr ?df = Inr (set_col ?df (py ''Up to 1 hr'') col') \<and>
           cells col' =
             map (\<lambda>x. if x = Str (py ''-'') then Num 0
                        else if x = Str (py ''1,678'') then Num 167 else x) (cells col))"
    using replacement_law [of ?df] by (elim conjE)
  with g obtain col' where
    "replace_up_to_1hr ?df = Inr (set_col ?df (py ''Up to 1 hr'') col')"
    and "cells col' =
      map (\<lambda>x. if x = Str (py ''-'') then Num 0 else if x = Str (py ''1,678'') then Num 167 else x)
        (cells (Column Object [Str (py ''1,678''), Str (py ''-''), Str (py ''2,345''), Str (py ''-5'')]))"
    by blast
  then have 1: "\<exists>col'. replace_up_to_1hr ?df
      = Inr [(py ''Up to 1 hr'', col'), (py ''1 to 2 hrs'', Column Object [Str (py ''1,678'')])] \<and>
      cells col' = [Num 167, Num 0, Str (py ''2,345''), Str (py ''-5'')]"
    by simp
  have "map (\<lambda>(l, c). (l, cells c))
     (replace_dash [(py ''1 to 2 hrs'', Column Object [Str (py ''1,678''), Str (py ''-''), Str (py ''a-b'')])])
     = map (\<lambda>(l, c). (l, map (\<lambda>x. if x = Str (py ''-'') then Num 0 else x) (cells c)))
         [(py ''1 to 2 hrs'', Column Object [Str (py ''1,678''), Str (py ''-''), Str (py ''a-b'')])]"
    using replacement_law [of "[(py ''1 to 2 hrs'', Column Object [Str (py ''1,678''), Str (py ''-''), Str (py ''a-b'')])]"]
    by (elim conjE)
  then have 2: "map (\<lambda>(l, c). (l, cells c))
     (replace_dash [(py ''1 to 2 hrs'', Column Object [Str (py ''1,678''), Str (py ''-''), Str (py ''a-b'')])])
     = [(py ''1 to 2 hrs'', [Str (py ''1,678''), Num 0, Str (py ''a-b'')])]"
    by simp
  have "\<forall>s. of_char CHR '','' \<in> set s \<longrightarrow> astype_int64_cell (Str s) = Inl ValueError"
    using replacement_law [of "[]"] by (elim conjE)
  moreover have "of_char CHR '','' \<in> set (py ''2,345'')"
    by (simp add: py_def)
  ultimately have 3: "astype_int64_cell (Str (py ''2,345'')) = Inl ValueError"
    by blast
  from 1 2 3 show ?thesis by (intro conjI)
qed

text \<open>
  Claim C7. On a cleaned frame the repair step is a no-op: the two replacements and the
  ten casts return the frame as it is, and so does the whole value repairer with the
  comments statement. The reason is the one the claim gives: a cleaned frame holds no
  cell \<open>-\<close> in any column, and none of the columns in which a number is repaired, which
  hold integers only, holds the token \<open>1,678\<close>.
\<close>

theorem repair_idempotent:
  assumes "clean df0 = Inr df"
  shows "run repair_steps df = Inr df \<and> run value_repairer df = Inr df
       \<and> (\<forall>(l, c) \<in> set df. Str (py ''-'') \<notin> set (cells c))
       \<and> (\<forall>l \<in> set numeric_labels. \<exists>c. get_col df l = Inr c \<and> Str (py ''1,678'') \<notin> set (cells c))"
proof -
  have "run repair_steps df = Inr df"
    by (rule run_fix) (rule cleaned_stage_fix [OF assms], simp add: value_repairer_def)
  moreover have "run value_repairer df = Inr df"
    by (rule run_fix) (rule cleaned_stage_fix [OF assms])
  moreover have "\<forall>(l, c) \<in> set df. Str (py ''-'') \<notin> set (cells c)"
    using cleaned_no_dash [OF assms] by (simp add: no_dash_def list_all_iff)
  moreover have "\<exists>c. get_col df l = Inr c \<and> Str (py ''1,678'') \<notin> set (cells c)"
    if "l \<in> set numeric_labels" for l
    using cleaned_numeric [OF assms that] by (auto simp: int_column_def int_cells_no_str)
  ultimately show ?thesis by blast
qed

theorem repair_idempotent_witness:
  "\<exists>df. clean (one_day (Str (py ''1,678'')) (Num (- 1)) (Str (py ''-'')) (Str (py ''0''))) = Inr df \<and>
        run repair_steps df = Inr df \<and> run value_repairer df = Inr df"
proof -
  let ?ex = "one_day (Str (py ''1,678'')) (Num (- 1)) (Str (py ''-'')) (Str (py ''0''))"
  define df where "df = projr (clean ?ex)"
  have "\<not> isl (clean ?ex)" by code_simp
  then have df: "clean ?ex = Inr df" by (simp add: df_def)
  from repair_idempotent [OF df] df show ?thesis by blast
qed

text \<open>
  Claim C8. After schema normalisation the \<open>Day\<close> column is of the categorical dtype
  whose categories are Mon, Tue, Wed, Thu, Fri, Sat, Sun in this order, from Mon to Sun.
  It has a row for every row of the input; a row whose input is one of the seven labels
  keeps it, and every entry that is not missing is one of the seven labels.
\<close>

theorem day_of_week_domain:
  assumes "run schema_normalizer df0 = Inr df"
  shows "\<exists>col0 col.
           get_col df0 (py ''Day'') = Inr col0 \<and> get_col df (py ''Day'') = Inr col \<and>
           dtype col = Category day_categories \<and>
           day_categories = [py ''Mon'', py ''Tue'', py ''Wed'', py ''Thu'', py ''Fri'', py ''Sat'', py ''Sun''] \<and>
           hd day_categories = py ''Mon'' \<and> last day_categories = py ''Sun'' \<and>
           length (cells col) = length (cells col0) \<and>
           (\<forall>i < length (cells col0).
              cells col0 ! i \<in> Str ` set day_categories \<longrightarrow> cells col ! i = cells col0 ! i) \<and>
           (\<forall>x \<in> set (cells col). x \<noteq> NaN \<longrightarrow> x \<in> Str ` set day_categories)"
proof -
  from assms obtain a b where
    a: "set_day_categorical df0 = Inr a" and b: "parse_date_column a = Inr b"
    and w: "whitespace_remover b = Inr df"
    by (auto simp: schema_normalizer_def and_then_Inr)
  from a obtain col0 where col0: "get_col df0 (py ''Day'') = Inr col0"
    and a_eq: "a = set_col df0 (py ''Day'') (categorical day_categories col0)"
    by (auto simp: set_day_categorical_def and_then_Inr)
  let ?col = "categorical day_categories col0"
  have "get_col a (py ''Day'') = Inr ?col" by (simp add: a_eq get_col_set_col)
  moreover from b obtain c' where "b = set_col a (py ''Date'') c'"
    by (auto simp: parse_date_column_def and_then_Inr)
  ultimately have "get_col b (py ''Day'') = Inr ?col" by (simp add: get_col_set_col)
  then have "(py ''Day'', ?col) \<in> set b" by (rule get_col_mem)
  from whitespace_remover_col [OF w this] obtain c1 where
    "strip_column ?col = Inr c1" "get_col df (py ''Day'') = Inr c1"
    by (auto simp: strip_labels)
  moreover have "strip_column ?col = Inr ?col"
    by (simp add: strip_column_def categorical_def)
  ultimately have col: "get_col df (py ''Day'') = Inr ?col" by simp
  have "dtype ?col = Category day_categories"
    by (simp add: categorical_def)
  moreover have "day_categories = [py ''Mon'', py ''Tue'', py ''Wed'', py ''Thu'', py ''Fri'', py ''Sat'', py ''Sun'']"
    "hd day_categories = py ''Mon''" "last day_categories = py ''Sun''"
    by (simp_all add: day_categories_def)
  moreover have "length (cells ?col) = length (cells col0)"
    by (simp add: categorical_def)
  moreover have "\<forall>i < length (cells col0).
      cells col0 ! i \<in> Str ` set day_categories \<longrightarrow> cells ?col ! i = cells col0 ! i"
    by (simp add: categorical_def categorical_cell_def)
  moreover have "\<forall>x \<in> set (cells ?col). x \<noteq> NaN \<longrightarrow> x \<in> Str ` set day_categories"
    by (auto simp: categorical_def categorical_cell_def)
  ultimately show ?thesis using col0 col by blast
qed

theorem day_of_week_domain_witness:
  "\<exists>col. and_then (run schema_normalizer (one_day (Str (py ''12'')) (Num 5) (Str (py ''57'')) NaN))
            (\<lambda>df. get_col df (py ''Day'')) = Inr col \<and>
         dtype col = Category [py ''Mon'', py ''Tue'', py ''Wed'', py ''Thu'', py ''Fri'', py ''Sat'', py ''Sun''] \<and>
         cells col = [Str (py ''Sat'')]"
proof -
  let ?ex = "one_day (Str (py ''12'')) (Num 5) (Str (py ''57'')) NaN"
  define df where "df = projr (run schema_normalizer ?ex)"
  have "\<not> isl (run schema_normalizer ?ex)" by code_simp
  then have df: "run schema_normalizer ?ex = Inr df" by (simp add: df_def)
  have g: "get_col ?ex (py ''Day'') = Inr (Column Object [Str (py ''Sat'')])"
    by (simp add: one_day_def get_col_def)
  from day_of_week_domain [OF df] g obtain col where
    col: "get_col df (py ''Day'') = Inr col" "dtype col = Category day_categories"
      "length (cells col) = 1"
      "\<forall>i < 1. [Str (py ''Sat'')] ! i \<in> Str ` set day_categories \<longrightarrow> cells col ! i = [Str (py ''Sat'')] ! i"
    by auto
  from col(4) have "cells col ! 0 = Str (py ''Sat'')" by (simp add: day_categories_def)
  with col(3) have "cells col = [Str (py ''Sat'')]"
    by (cases "cells col") simp_all
  with col(1,2) df show ?thesis by (simp add: day_categories_def)
qed

text \<open>
  Claim C9. On a cleaned frame each of the five statements succeeds and keeps exactly
  the rows whose Date is a day from 1 January to 31 December of its year, both ends
  included: every column of the subset, with its label and dtype, holds the cells of that
  column in the rows whose date passes the test, in their order, and the \<open>Date\<close> column
  of the subset is the \<open>Date\<close> column of the frame filtered by the test. 31 December and
  1 January belong to their year; no row belongs to two years; a row whose date is in
  another year, or missing, belongs to none.
\<close>

theorem year_subsets:
  assumes "clean df0 = Inr df"
  shows "let in_year = (\<lambda>Y x. \<exists>d. x = Ts d \<and> date_le (Date Y 1 1) d \<and> date_le d (Date Y 12 31))
         in \<exists>col. get_col df (py ''Date'') = Inr col \<and>
            (\<forall>(Y, subset) \<in> set [(2018, ge2018_data), (2019, ge2019_data), (2020, ge2020_data),
                                   (2021, ge2021_data), (2022, ge2022_data)].
               \<exists>sub. subset df = Inr sub \<and>
                 sub = map (\<lambda>(l, c). (l, Column (dtype c)
                              (map fst (filter (\<lambda>(x, t). in_year Y t) (zip (cells c) (cells col))))))
                         df \<and>
                 get_col sub (py ''Date'') =
                   Inr (Column (dtype col) (filter (in_year Y) (cells col))))
          \<and> (\<forall>Y. in_year Y (Ts (Date Y 12 31)) \<and> in_year Y (Ts (Date Y 1 1)))
          \<and> (\<forall>Y Y' x. in_year Y x \<and> in_year Y' x \<longrightarrow> Y = Y')
          \<and> (\<forall>Y d. in_year Y (Ts d) \<longrightarrow> year d = Y)
          \<and> (\<forall>Y. \<not> in_year Y NaN)"
proof -
  define in_year where
    "in_year = (\<lambda>Y x. \<exists>d. x = Ts d \<and> date_le (Date Y 1 1) d \<and> date_le d (Date Y 12 31))"
  define rows where
    "rows = (\<lambda>Y col (df :: dataframe). map (\<lambda>(l, c). (l, Column (dtype c)
                (map fst (filter (\<lambda>(x, t). in_year Y t) (zip (cells c) (cells col)))))) df)"
  from date_column_cleaned [OF assms] obtain col where
    col: "get_col df (py ''Date'') = Inr col" "list_all is_date_cell (cells col)" by blast
  have lr: "loc_rows (map (in_year Y) (cells col)) df = rows Y col df" for Y
    by (simp add: loc_rows_def rows_def keep_rows_zip)
  have ys: "year_slice lo hi df = Inr (rows Y col df)"
    if "parse_iso lo = Some (Date Y 1 1)" "parse_iso hi = Some (Date Y 12 31)" for lo hi Y
    using year_slice_dates [OF col that] lr [of Y] by (simp add: in_year_def)
  have dt: "get_col (rows Y col df) (py ''Date'') =
      Inr (Column (dtype col) (filter (in_year Y) (cells col)))" for Y
    using col(1) by (simp add: lr [symmetric] loc_rows_def get_col_map keep_rows_filter)
  have 1: "\<forall>(Y, subset) \<in> set [(2018, ge2018_data), (2019, ge2019_data), (2020, ge2020_data),
                            (2021, ge2021_data), (2022, ge2022_data)].
        \<exists>sub. subset df = Inr sub \<and> sub = rows Y col df \<and>
          get_col sub (py ''Date'') = Inr (Column (dtype col) (filter (in_year Y) (cells col)))"
    by (simp add: ge2018_data_def ge2019_data_def ge2020_data_def ge2021_data_def ge2022_data_def
        ys [OF year_bounds(1,2)] ys [OF year_bounds(3,4)] ys [OF year_bounds(5,6)]
        ys [OF year_bounds(7,8)] ys [OF year_bounds(9,10)] dt)
  have 2: "\<forall>Y. in_year Y (Ts (Date Y 12 31)) \<and> in_year Y (Ts (Date Y 1 1))"
    by (simp add: in_year_def date_le_def)
  have 4: "\<forall>Y d. in_year Y (Ts d) \<longrightarrow> year d = Y"
    by (auto simp: in_year_def date_le_def)
  then have 3: "\<forall>Y Y' x. in_year Y x \<and> in_year Y' x \<longrightarrow> Y = Y'"
    by (metis in_year_def)
  have 5: "\<forall>Y. \<not> in_year Y NaN"
    by (simp add: in_year_def)
  from col(1) 1 2 3 4 5 show ?thesis
    unfolding Let_def in_year_def [symmetric] rows_def by blast
qed

text \<open>
  The sample day is 31 December 2022: it is the one row of the subset of 2022, in
  \<open>Date\<close> and in \<open>Subscribers\<close> alike, and no row of the subset of 2021.
\<close>

theorem year_subsets_witness:
  "\<exists>df. clean (one_day (Str (py ''12'')) (Num 5) (Str (py ''57'')) NaN) = Inr df \<and>
     and_then (ge2022_data df) (\<lambda>s. get_col s (py ''Date'')) =
       Inr (Column Datetime64 [Ts (Date 2022 12 31)]) \<and>
     and_then (ge2022_data df) (\<lambda>s. get_col s (py ''Subscribers'')) =
       Inr (Column Int64 [Num 57]) \<and>
     and_then (ge2021_data df) (\<lambda>s. get_col s (py ''Date'')) = Inr (Column Datetime64 []) \<and>
     and_then (ge2021_data df) (\<lambda>s. get_col s (py ''Subscribers'')) = Inr (Column Int64 [])"
proof -
  let ?ex = "one_day (Str (py ''12'')) (Num 5) (Str (py ''57'')) NaN"
  define df where "df = projr (clean ?ex)"
  have "\<not> isl (clean ?ex)" by code_simp
  then have df: "clean ?ex = Inr df" by (simp add: df_def)
  have g: "get_col df (py ''Date'') = Inr (Column Datetime64 [Ts (Date 2022 12 31)])"
    unfolding df_def by code_simp
  have s: "get_col df (py ''Subscribers'') = Inr (Column Int64 [Num 57])"
    unfolding df_def by code_simp
  let ?keep = "\<lambda>Y. map (\<lambda>(l, c). (l, Column (dtype c)
      (map fst (filter (\<lambda>(x, t). \<exists>d. t = Ts d \<and> date_le (Date Y 1 1) d \<and> date_le d (Date Y 12 31))
         (zip (cells c) [Ts (Date 2022 12 31)]))))) df"
  define k22 where "k22 = ?keep 2022"
  define k21 where "k21 = ?keep 2021"
  from year_subsets [OF df] g
  have 22: "ge2022_data df = Inr k22" and 21: "ge2021_data df = Inr k21"
    by (simp_all add: Let_def k22_def k21_def)
  have k: "get_col (?keep Y) l = Inr (Column ty (if Y = 2022 then [x] else []))"
    if "get_col df l = Inr (Column ty [x])" for Y l ty x
  proof -
    have "(\<exists>d. Ts (Date 2022 12 31) = Ts d \<and> date_le (Date Y 1 1) d \<and> date_le d (Date Y 12 31))
        \<longleftrightarrow> Y = 2022"
      by (auto simp: date_le_def)
    then show ?thesis
      using that by (simp add: get_col_map)
  qed
  have "get_col k22 (py ''Date'') = Inr (Column Datetime64 [Ts (Date 2022 12 31)])"
    "get_col k22 (py ''Subscribers'') = Inr (Column Int64 [Num 57])"
    "get_col k21 (py ''Date'') = Inr (Column Datetime64 [])"
    "get_col k21 (py ''Subscribers'') = Inr (Column Int64 [])"
    unfolding k22_def k21_def using k [OF g] k [OF s] by simp_all
  with df show ?thesis
    by (simp add: 21 22)
qed

text \<open>
  Claim C10. The conversion of \<open>Day\<close> never raises on a frame that has the column: a
  cell that is one of the seven labels is kept as it is, and every other cell, whatever
  it holds, becomes the missing value.
\<close>

theorem day_outside_domain_null:
  assumes "get_col df (py ''Day'') = Inr col"
  shows "\<exists>df'. set_day_categorical df = Inr df' \<and>
           get_col df' (py ''Day'') =
             Inr (Column (Category [py ''Mon'', py ''Tue'', py ''Wed'', py ''Thu'', py ''Fri'', py ''Sat'', py ''Sun''])
                   (map (\<lambda>c. if c \<in> {Str (py ''Mon''), Str (py ''Tue''), Str (py ''Wed''), Str (py ''Thu''),
                                        Str (py ''Fri''), Str (py ''Sat''), Str (py ''Sun'')}
                              then c else NaN) (cells col)))"
proof -
  have "categorical_cell day_categories =
      (\<lambda>c. if c \<in> {Str (py ''Mon''), Str (py ''Tue''), Str (py ''Wed''), Str (py ''Thu''),
                     Str (py ''Fri''), Str (py ''Sat''), Str (py ''Sun'')} then c else NaN)"
    by (rule ext) (simp add: categorical_cell_def day_categories_def)
  then show ?thesis
    using assms
    by (simp add: set_day_categorical_def categorical_def get_col_set_col day_categories_def)
qed

theorem day_outside_domain_null_witness:
  "\<exists>df'. set_day_categorical [(py ''Day'', Column Object [Str (py ''Mon''), Str (py ''Monday''), Str (py ''sun''), Num 3, NaN, Str (py ''Sun'')])] = Inr df' \<and>
     get_col df' (py ''Day'') =
       Inr (Column (Category [py ''Mon'', py ''Tue'', py ''Wed'', py ''Thu'', py ''Fri'', py ''Sat'', py ''Sun''])
              [Str (py ''Mon''), NaN, NaN, NaN, NaN, Str (py ''Sun'')])"
proof -
  have "get_col [(py ''Day'', Column Object [Str (py ''Mon''), Str (py ''Monday''), Str (py ''sun''), Num 3, NaN, Str (py ''Sun'')])] (py ''Day'')
      = Inr (Column Object [Str (py ''Mon''), Str (py ''Monday''), Str (py ''sun''), Num 3, NaN, Str (py ''Sun'')])"
    by (simp add: get_col_def)
  from day_outside_domain_null [OF this] show ?thesis by simp
qed

end
